theory Spec2Isabelle
  imports Main
begin

section \<open>The research store: task-progress synchronisation\<close>

text \<open>
  A shallow embedding of \<^verbatim>\<open>frontend/src/stores/research.ts\<close>: the Pinia store that tracks
  one research task through a WebSocket (push) and a two-second polling timer (pull).
  The store's refs and variables, and the part of the browser they talk to (the sockets
  it constructed, its intervals and timeouts, the status requests in flight, the console),
  are the fields of one record. Each function of the store that takes part in the
  synchronisation (\<^verbatim>\<open>startStatusSync\<close>, \<^verbatim>\<open>stopStatusSync\<close>, \<^verbatim>\<open>startPolling\<close>, \<^verbatim>\<open>stopPolling\<close>,
  \<^verbatim>\<open>updateFromTask\<close>, \<^verbatim>\<open>connectWebSocket\<close>, \<^verbatim>\<open>fetchTaskStatus\<close>, \<^verbatim>\<open>resetProgress\<close>,
  \<^verbatim>\<open>cleanup\<close>) and each callback it installs (the interval callback, the four socket
  handlers, the reconnect timeout) is a function from that record to the updated record.
  \<^verbatim>\<open>startResearch\<close>, \<^verbatim>\<open>fetchTaskResult\<close>, \<^verbatim>\<open>fetchHistory\<close> and \<^verbatim>\<open>fetchReports\<close> are left out.
\<close>

subsection \<open>Values received at run time\<close>

text \<open>
  \<^verbatim>\<open>JSON.parse\<close> returns \<^verbatim>\<open>any\<close>, and the store copies what it reads from the parsed
  frame into its refs unchecked, so the fields of the snapshot hold arbitrary JavaScript
  values. Numbers are the integer-valued ones.
\<close>

datatype jsval =
    JUndefined
  | JNull
  | JBool bool
  | JNum int
  | JStr string
  | JArr "jsval list"
  | JObj "(string \<times> jsval) list"

datatype js_error = SyntaxError | TypeError | NetworkError

text \<open>The operand test of \<^verbatim>\<open>a || b\<close>.\<close>

fun truthy :: "jsval \<Rightarrow> bool" where
  "truthy JUndefined = False"
| "truthy JNull = False"
| "truthy (JBool b) = b"
| "truthy (JNum n) = (n \<noteq> 0)"
| "truthy (JStr s) = (s \<noteq> [])"
| "truthy (JArr xs) = True"
| "truthy (JObj fs) = True"

definition js_or :: "jsval \<Rightarrow> jsval \<Rightarrow> jsval" where
  "js_or a b = (if truthy a then a else b)"

text \<open>
  Reading a property of \<^verbatim>\<open>null\<close> or \<^verbatim>\<open>undefined\<close> throws a TypeError; on every other
  value the read succeeds. The store reads only the names \<^verbatim>\<open>type\<close>, \<^verbatim>\<open>status\<close>,
  \<^verbatim>\<open>progress\<close>, \<^verbatim>\<open>currentAgent\<close>, \<^verbatim>\<open>currentTask\<close> and \<^verbatim>\<open>estimatedTime\<close>, which no
  primitive and no array has, so there the read gives \<^verbatim>\<open>undefined\<close>.
\<close>

fun nullish :: "jsval \<Rightarrow> bool" where
  "nullish JUndefined = True"
| "nullish JNull = True"
| "nullish v = False"

fun js_prop :: "jsval \<Rightarrow> string \<Rightarrow> jsval" where
  "js_prop (JObj fs) k = (case map_of fs k of None \<Rightarrow> JUndefined | Some v \<Rightarrow> v)"
| "js_prop v k = JUndefined"

subsection \<open>The store's data\<close>

text \<open>
  \<^verbatim>\<open>ResearchProgress\<close> and \<^verbatim>\<open>ResearchTask\<close> of the type declarations. The fields that
  the WebSocket handler assigns from the parsed frame are \<^typ>\<open>jsval\<close>.
\<close>

record ResearchProgress =
  status :: jsval
  progress :: jsval
  currentAgent :: jsval
  currentTask :: jsval
  estimatedTime :: jsval

record ResearchTask =
  task_id :: string
  company :: string
  task_status :: jsval
  depth :: string
  focus_areas :: "string list"
  task_progress :: jsval
  current_agent :: jsval
  current_task :: jsval
  estimated_time :: jsval
  created_at :: string
  started_at :: "string option"
  completed_at :: "string option"
  report_data :: "jsval option"
  error_message :: "string option"

datatype readyState = CONNECTING | OPEN | CLOSING | CLOSED

datatype log_entry =
    Log_WsConnected
  | Log_WsReceived jsval
  | Log_WsRetry nat
  | Log_WsClosed
  | Err_WsParseFailed js_error
  | Err_WsError
  | Err_WsCreateFailed
  | Err_PollFailed js_error

text \<open>
  The refs \<^verbatim>\<open>currentTask\<close>, \<^verbatim>\<open>progress\<close>, \<^verbatim>\<open>wsConnection\<close>, \<^verbatim>\<open>error\<close> and the variables
  \<^verbatim>\<open>pollingTimer\<close>, \<^verbatim>\<open>wsRetryCount\<close>, followed by the browser's side:
  \<^item> \<open>sockets\<close>: every WebSocket constructed so far, with the task id of its URL and its
    \<^verbatim>\<open>readyState\<close>; a socket's handle is its index;
  \<^item> \<open>intervals\<close>: every \<^verbatim>\<open>setInterval\<close> so far, with the task id its callback closes
    over, its period, and whether it is still active; a timer id is the index
    (browser timer ids are non-zero, so \<^verbatim>\<open>if (pollingTimer)\<close> tests for non-null);
  \<^item> \<open>timeouts\<close>: every \<^verbatim>\<open>setTimeout\<close> so far, with its delay and whether it is
    still pending;
  \<^item> \<open>inflight\<close>: the task ids of the status requests awaiting their response;
  \<^item> \<open>console\<close>: what was logged;
  \<^item> \<open>ctor_throws\<close>: whether \<^verbatim>\<open>new WebSocket\<close> throws for the URL of a task id.
\<close>

record world =
  currentTask_value :: "ResearchTask option"
  progress_value :: ResearchProgress
  wsConnection_value :: "nat option"
  error_value :: "string option"
  pollingTimer :: "nat option"
  wsRetryCount :: nat
  sockets :: "(string \<times> readyState) list"
  intervals :: "(string \<times> nat \<times> bool) list"
  timeouts :: "(nat \<times> bool) list"
  inflight :: "string list"
  console :: "log_entry list"
  ctor_throws :: "string \<Rightarrow> bool"

definition MAX_WS_RETRIES :: nat where
  "MAX_WS_RETRIES = 3"

definition initial_progress :: ResearchProgress where
  "initial_progress =
     \<lparr>status = JStr ''pending'', progress = JNum 0, currentAgent = JStr '''',
      currentTask = JStr '''', estimatedTime = JNum 0\<rparr>"

text \<open>The store as \<^verbatim>\<open>defineStore\<close> creates it, in a browser where no constructor throws.\<close>

definition init_world :: world where
  "init_world =
     \<lparr>currentTask_value = None, progress_value = initial_progress,
      wsConnection_value = None, error_value = None, pollingTimer = None,
      wsRetryCount = 0, sockets = [], intervals = [], timeouts = [], inflight = [],
      console = [], ctor_throws = (\<lambda>t. False)\<rparr>"

text \<open>The canonical snapshot: the current task and the progress record.\<close>

definition snapshot :: "world \<Rightarrow> ResearchTask option \<times> ResearchProgress" where
  "snapshot w = (currentTask_value w, progress_value w)"

definition isResearching :: "world \<Rightarrow> bool" where
  "isResearching w =
     (case currentTask_value w of
        None \<Rightarrow> False
      | Some t \<Rightarrow> task_status t = JStr ''running'' \<or> task_status t = JStr ''pending'')"

subsection \<open>The browser's operations\<close>

definition console_log :: "log_entry \<Rightarrow> world \<Rightarrow> world" where
  "console_log e w = w\<lparr>console := console w @ [e]\<rparr>"

definition readyState_of :: "world \<Rightarrow> nat \<Rightarrow> readyState option" where
  "readyState_of w h = (if h < length (sockets w) then Some (snd (sockets w ! h)) else None)"

definition set_readyState :: "nat \<Rightarrow> readyState \<Rightarrow> world \<Rightarrow> world" where
  "set_readyState h st w =
     (if h < length (sockets w)
      then w\<lparr>sockets := (sockets w)[h := (fst (sockets w ! h), st)]\<rparr> else w)"

text \<open>
  \<^verbatim>\<open>ws.close()\<close>: a connecting or open socket starts closing; a closing or closed one is
  left alone. It never throws, and the close event comes later, as an event of its own.
\<close>

definition ws_close :: "nat \<Rightarrow> world \<Rightarrow> world" where
  "ws_close h w =
     (if readyState_of w h = Some CONNECTING \<or> readyState_of w h = Some OPEN
      then set_readyState h CLOSING w else w)"

definition interval_active :: "world \<Rightarrow> nat \<Rightarrow> bool" where
  "interval_active w i = (i < length (intervals w) \<and> snd (snd (intervals w ! i)))"

definition clearInterval :: "nat \<Rightarrow> world \<Rightarrow> world" where
  "clearInterval i w =
     (if i < length (intervals w)
      then w\<lparr>intervals := (intervals w)[i := (fst (intervals w ! i), fst (snd (intervals w ! i)), False)]\<rparr>
      else w)"

definition setTimeout :: "nat \<Rightarrow> world \<Rightarrow> world" where
  "setTimeout ms w = w\<lparr>timeouts := timeouts w @ [(ms, True)]\<rparr>"

subsection \<open>The store's functions\<close>

definition stopPolling :: "world \<Rightarrow> world" where
  "stopPolling w =
     (case pollingTimer w of
        None \<Rightarrow> w
      | Some i \<Rightarrow> (clearInterval i w)\<lparr>pollingTimer := None\<rparr>)"

definition stopStatusSync :: "world \<Rightarrow> world" where
  "stopStatusSync w =
     stopPolling
       (case wsConnection_value w of
          None \<Rightarrow> w
        | Some h \<Rightarrow> (ws_close h w)\<lparr>wsConnection_value := None\<rparr>)"

definition startPolling :: "string \<Rightarrow> world \<Rightarrow> world" where
  "startPolling taskId w =
     (let w1 = stopPolling w
      in w1\<lparr>intervals := intervals w1 @ [(taskId, 2000, True)],
            pollingTimer := Some (length (intervals w1))\<rparr>)"

definition updateFromTask :: "ResearchTask \<Rightarrow> world \<Rightarrow> world" where
  "updateFromTask task w =
     w\<lparr>currentTask_value := Some task,
       progress_value :=
         \<lparr>status = task_status task,
          progress = task_progress task,
          currentAgent = js_or (current_agent task) (JStr ''''),
          currentTask = js_or (current_task task) (JStr ''''),
          estimatedTime = js_or (estimated_time task) (JNum 0)\<rparr>\<rparr>"

text \<open>
  The body of the interval callback after its \<^verbatim>\<open>await\<close>: the request either rejected or
  resolved with a task.
\<close>

definition poll_resume :: "js_error + ResearchTask \<Rightarrow> world \<Rightarrow> world" where
  "poll_resume r w =
     (case r of
        Inl e \<Rightarrow> console_log (Err_PollFailed e) w
      | Inr task \<Rightarrow>
          (let w1 = updateFromTask task w
           in if task_status task = JStr ''completed'' \<or> task_status task = JStr ''failed''
              then stopStatusSync w1 else w1))"

definition ws_onopen :: "world \<Rightarrow> world" where
  "ws_onopen w = (console_log Log_WsConnected w)\<lparr>wsRetryCount := 0\<rparr>"

text \<open>
  \<^verbatim>\<open>ws.onmessage\<close>, given what \<^verbatim>\<open>JSON.parse(event.data)\<close> did: threw, or returned a value.
  The first property read, \<^verbatim>\<open>data.type\<close>, throws when the value is \<^verbatim>\<open>null\<close>; both
  exceptions land in the handler's \<^verbatim>\<open>catch\<close>.
\<close>

definition ws_onmessage :: "js_error + jsval \<Rightarrow> world \<Rightarrow> world" where
  "ws_onmessage parsed w =
     (case parsed of
        Inl e \<Rightarrow> console_log (Err_WsParseFailed e) w
      | Inr data \<Rightarrow>
          if nullish data then console_log (Err_WsParseFailed TypeError) w
          else if js_prop data ''type'' = JStr ''heartbeat'' then w
          else
            (let w1 = console_log (Log_WsReceived data) w;
                 w2 = w1\<lparr>progress_value :=
                        \<lparr>status = js_prop data ''status'',
                         progress = js_prop data ''progress'',
                         currentAgent = js_or (js_prop data ''currentAgent'') (JStr ''''),
                         currentTask = js_or (js_prop data ''currentTask'') (JStr ''''),
                         estimatedTime = js_or (js_prop data ''estimatedTime'') (JNum 0)\<rparr>\<rparr>;
                 w3 = (case currentTask_value w2 of
                         None \<Rightarrow> w2
                       | Some t \<Rightarrow>
                           w2\<lparr>currentTask_value :=
                                Some (t\<lparr>task_status := js_prop data ''status'',
                                        task_progress := js_prop data ''progress'',
                                        current_agent := js_prop data ''currentAgent'',
                                        current_task := js_prop data ''currentTask''\<rparr>)\<rparr>)
             in if js_prop data ''status'' = JStr ''completed''
                   \<or> js_prop data ''status'' = JStr ''failed''
                then stopStatusSync w3 else w3))"

definition ws_onerror :: "world \<Rightarrow> world" where
  "ws_onerror w = console_log Err_WsError w"

definition ws_onclose :: "world \<Rightarrow> world" where
  "ws_onclose w =
     (let w1 = (console_log Log_WsClosed w)\<lparr>wsConnection_value := None\<rparr>
      in if wsRetryCount w1 < MAX_WS_RETRIES \<and> isResearching w1
         then (let w2 = w1\<lparr>wsRetryCount := wsRetryCount w1 + 1\<rparr>;
                   w3 = console_log (Log_WsRetry (wsRetryCount w2)) w2
               in setTimeout 2000 w3)
         else w1)"

definition connectWebSocket :: "string \<Rightarrow> world \<Rightarrow> world" where
  "connectWebSocket taskId w =
     (let w1 = (case wsConnection_value w of None \<Rightarrow> w | Some h \<Rightarrow> ws_close h w)
      in if ctor_throws w1 taskId then console_log Err_WsCreateFailed w1
         else w1\<lparr>sockets := sockets w1 @ [(taskId, CONNECTING)],
                 wsConnection_value := Some (length (sockets w1))\<rparr>)"

text \<open>The callback that \<^verbatim>\<open>ws.onclose\<close> hands to \<^verbatim>\<open>setTimeout\<close>.\<close>

definition reconnect_callback :: "world \<Rightarrow> world" where
  "reconnect_callback w =
     (case currentTask_value w of
        None \<Rightarrow> w
      | Some t \<Rightarrow> if isResearching w then connectWebSocket (task_id t) w else w)"

definition startStatusSync :: "string \<Rightarrow> world \<Rightarrow> world" where
  "startStatusSync taskId w = startPolling taskId (connectWebSocket taskId (w\<lparr>wsRetryCount := 0\<rparr>))"

text \<open>The body of \<^verbatim>\<open>fetchTaskStatus\<close> after its \<^verbatim>\<open>await\<close>.\<close>

definition fetchTaskStatus_resume :: "string + ResearchTask \<Rightarrow> world \<Rightarrow> world" where
  "fetchTaskStatus_resume r w =
     (case r of
        Inl msg \<Rightarrow> w\<lparr>error_value := Some msg\<rparr>
      | Inr task \<Rightarrow> updateFromTask task w)"

definition resetProgress :: "world \<Rightarrow> world" where
  "resetProgress w = w\<lparr>progress_value := initial_progress\<rparr>"

definition cleanup :: "world \<Rightarrow> world" where
  "cleanup w = resetProgress ((stopStatusSync w)\<lparr>currentTask_value := None\<rparr>)"

subsection \<open>The event loop\<close>

text \<open>
  Everything that runs is one of these events, one at a time: a call of a store function
  by a component, or a callback delivered by the browser. The browser delivers
  \<^item> \<^verbatim>\<open>open\<close> to a connecting socket, which becomes open;
  \<^item> \<^verbatim>\<open>message\<close> to an open socket only;
  \<^item> \<^verbatim>\<open>error\<close> and \<^verbatim>\<open>close\<close> to a socket that is not yet closed, which \<^verbatim>\<open>close\<close> leaves closed;
  \<^item> a tick to an active interval: the callback sends the status request and suspends;
  \<^item> the response of a request in flight, which resumes that callback;
  \<^item> a pending timeout, once.
  An event that the browser does not deliver leaves everything as it is.
\<close>

datatype event =
    StartStatusSync string
  | StopStatusSync
  | Cleanup
  | ConnectWebSocket string
  | ResetProgress
  | FetchTaskStatusDone "string + ResearchTask"
  | WsOpen nat
  | WsMessage nat "js_error + jsval"
  | WsError nat
  | WsClose nat
  | IntervalTick nat
  | PollResponse nat "js_error + ResearchTask"
  | TimeoutFire nat

fun remove_nth :: "nat \<Rightarrow> 'a list \<Rightarrow> 'a list" where
  "remove_nth n [] = []"
| "remove_nth 0 (x # xs) = xs"
| "remove_nth (Suc n) (x # xs) = x # remove_nth n xs"

fun step :: "event \<Rightarrow> world \<Rightarrow> world" where
  "step (StartStatusSync taskId) w = startStatusSync taskId w"
| "step StopStatusSync w = stopStatusSync w"
| "step Cleanup w = cleanup w"
| "step (ConnectWebSocket taskId) w = connectWebSocket taskId w"
| "step ResetProgress w = resetProgress w"
| "step (FetchTaskStatusDone r) w = fetchTaskStatus_resume r w"
| "step (WsOpen h) w =
     (if readyState_of w h = Some CONNECTING then ws_onopen (set_readyState h OPEN w) else w)"
| "step (WsMessage h parsed) w =
     (if readyState_of w h = Some OPEN then ws_onmessage parsed w else w)"
| "step (WsError h) w =
     (if readyState_of w h \<noteq> None \<and> readyState_of w h \<noteq> Some CLOSED then ws_onerror w else w)"
| "step (WsClose h) w =
     (if readyState_of w h \<noteq> None \<and> readyState_of w h \<noteq> Some CLOSED
      then ws_onclose (set_readyState h CLOSED w) else w)"
| "step (IntervalTick i) w =
     (if interval_active w i then w\<lparr>inflight := inflight w @ [fst (intervals w ! i)]\<rparr> else w)"
| "step (PollResponse k r) w =
     (if k < length (inflight w) then poll_resume r (w\<lparr>inflight := remove_nth k (inflight w)\<rparr>)
      else w)"
| "step (TimeoutFire t) w =
     (if t < length (timeouts w) \<and> snd (timeouts w ! t)
      then reconnect_callback (w\<lparr>timeouts := (timeouts w)[t := (fst (timeouts w ! t), False)]\<rparr>)
      else w)"

fun run :: "event list \<Rightarrow> world \<Rightarrow> world" where
  "run [] w = w"
| "run (e # es) w = run es (step e w)"

subsection \<open>Concrete inputs\<close>

text \<open>A task as the status endpoint returns it, and a status frame as the socket delivers it.\<close>

definition example_task :: "string \<Rightarrow> int \<Rightarrow> ResearchTask" where
  "example_task st p =
     \<lparr>task_id = ''t1'', company = ''c'', task_status = JStr st, depth = ''standard'',
      focus_areas = [], task_progress = JNum p, current_agent = JStr ''a'',
      current_task = JStr ''b'', estimated_time = JNum 0, created_at = '''',
      started_at = None, completed_at = None, report_data = None, error_message = None\<rparr>"

definition status_frame :: "string \<Rightarrow> int \<Rightarrow> jsval" where
  "status_frame st p =
     JObj [(''type'', JStr ''progress''), (''status'', JStr st), (''progress'', JNum p),
           (''currentAgent'', JStr ''a''), (''currentTask'', JStr ''b''),
           (''estimatedTime'', JNum 0)]"

definition heartbeat_frame :: jsval where
  "heartbeat_frame = JObj [(''type'', JStr ''heartbeat'')]"

text \<open>
  The research page after mounting on a running task: the task is loaded, both channels
  are started, the socket is open, and the first status request is in flight.
\<close>

definition tracking_world :: world where
  "tracking_world =
     run [FetchTaskStatusDone (Inr (example_task ''running'' 0)), StartStatusSync ''t1'',
          WsOpen 0, IntervalTick 0] init_world"

text \<open>
  The research page mounting on a pending task: the task is loaded, both channels are
  started, and the socket opens.
\<close>

definition mounted_events :: "event list" where
  "mounted_events =
     [FetchTaskStatusDone (Inr (example_task ''pending'' 0)), StartStatusSync ''t1'', WsOpen 0]"

text \<open>
  The channels are started a second time for the same task while the first socket is
  open, as when the research page mounts on a task whose channels the home page has
  started. Then the close event of the first socket arrives, the timeout it sets fires,
  and the socket that the timeout opens connects.
\<close>

definition remount_events :: "event list" where
  "remount_events =
     mounted_events @
     [FetchTaskStatusDone (Inr (example_task ''running'' 0)), StartStatusSync ''t1'', WsOpen 1,
      WsClose 0, TimeoutFire 0, WsOpen 2]"

text \<open>
  Every interval that is still active is the one held in \<^verbatim>\<open>pollingTimer\<close>.
\<close>

definition polling_inv :: "world \<Rightarrow> bool" where
  "polling_inv w = (\<forall>i < length (intervals w). snd (snd (intervals w ! i)) \<longrightarrow> pollingTimer w = Some i)"

text \<open>
  The events in which no status is applied and no component calls the store: the socket
  events, the ticks, the reconnect timeouts, and the status requests that fail.
\<close>

fun quiet_event :: "event \<Rightarrow> bool" where
  "quiet_event (WsOpen h) = True"
| "quiet_event (WsMessage h parsed) = True"
| "quiet_event (WsError h) = True"
| "quiet_event (WsClose h) = True"
| "quiet_event (IntervalTick i) = True"
| "quiet_event (TimeoutFire t) = True"
| "quiet_event (PollResponse k (Inl e)) = True"
| "quiet_event e = False"

text \<open>A socket that is closing or closed, and an interval that has been cleared.\<close>

definition socket_dead :: "world \<Rightarrow> nat \<Rightarrow> bool" where
  "socket_dead w h =
     (h < length (sockets w) \<and> (snd (sockets w ! h) = CLOSING \<or> snd (sockets w ! h) = CLOSED))"

definition interval_dead :: "world \<Rightarrow> nat \<Rightarrow> bool" where
  "interval_dead w i = (i < length (intervals w) \<and> \<not> snd (snd (intervals w ! i)))"

definition no_live_socket :: "world \<Rightarrow> bool" where
  "no_live_socket w =
     (\<forall>k < length (sockets w). snd (sockets w ! k) = CLOSING \<or> snd (sockets w ! k) = CLOSED)"

text \<open>Every socket that is connecting or open is the one held in \<^verbatim>\<open>wsConnection\<close>.\<close>

definition only_held_live :: "world \<Rightarrow> bool" where
  "only_held_live w =
     (\<forall>k < length (sockets w).
        snd (sockets w ! k) = CONNECTING \<or> snd (sockets w ! k) = OPEN \<longrightarrow> wsConnection_value w = Some k)"

section \<open>Properties\<close>

lemmas store_defs = example_task_def status_frame_def heartbeat_frame_def init_world_def
  initial_progress_def snapshot_def isResearching_def console_log_def readyState_of_def
  set_readyState_def ws_close_def interval_active_def clearInterval_def setTimeout_def
  stopPolling_def stopStatusSync_def startPolling_def updateFromTask_def poll_resume_def
  ws_onopen_def ws_onmessage_def ws_onerror_def ws_onclose_def connectWebSocket_def
  reconnect_callback_def startStatusSync_def fetchTaskStatus_resume_def resetProgress_def
  cleanup_def MAX_WS_RETRIES_def js_or_def Let_def tracking_world_def

lemmas teardown_defs = stopStatusSync_def stopPolling_def ws_close_def clearInterval_def
  set_readyState_def readyState_of_def

subsection \<open>Stopping both channels\<close>

lemma stopStatusSync_idem: "stopStatusSync (stopStatusSync w) = stopStatusSync w"
  by (simp add: teardown_defs split: option.splits)

lemma stopStatusSync_handles [simp]:
  "wsConnection_value (stopStatusSync w) = None"
  "pollingTimer (stopStatusSync w) = None"
  by (simp_all add: teardown_defs split: option.splits)

lemma stopStatusSync_snapshot [simp]:
  "currentTask_value (stopStatusSync w) = currentTask_value w"
  "progress_value (stopStatusSync w) = progress_value w"
  "console (stopStatusSync w) = console w"
  by (simp_all add: teardown_defs split: option.splits)

lemma stopStatusSync_upd:
  "stopStatusSync (w\<lparr>console := c\<rparr>) = (stopStatusSync w)\<lparr>console := c\<rparr>"
  "stopStatusSync (w\<lparr>progress_value := p\<rparr>) = (stopStatusSync w)\<lparr>progress_value := p\<rparr>"
  "stopStatusSync (w\<lparr>currentTask_value := t\<rparr>) = (stopStatusSync w)\<lparr>currentTask_value := t\<rparr>"
  by (simp_all add: teardown_defs split: option.splits)

subsection \<open>Heartbeats\<close>

text \<open>
  C7. A frame on the push channel whose \<^verbatim>\<open>type\<close> is \<^verbatim>\<open>'heartbeat'\<close> changes nothing: the
  handler returns before it touches the progress record or the current task, so the whole
  store is as it was, whether the handler is run directly or the frame is delivered to
  any socket.
\<close>

theorem heartbeat_leaves_store_unchanged:
  assumes "js_prop data ''type'' = JStr ''heartbeat''"
  shows "ws_onmessage (Inr data) w = w \<and> step (WsMessage h (Inr data)) w = w"
proof -
  from assms have "\<not> nullish data"
    by (cases data) simp_all
  with assms show ?thesis
    by (simp add: ws_onmessage_def)
qed

theorem heartbeat_leaves_store_unchanged_witness:
  "js_prop heartbeat_frame ''type'' = JStr ''heartbeat''
   \<and> readyState_of tracking_world 0 = Some OPEN
   \<and> step (WsMessage 0 (Inr heartbeat_frame)) tracking_world = tracking_world"
  using heartbeat_leaves_store_unchanged [of heartbeat_frame tracking_world 0]
  by (simp add: store_defs)

subsection \<open>Errors recovered locally\<close>

text \<open>
  C8. A poll whose status request fails only writes a console entry: the snapshot, the
  timer variable and the intervals are as before, and a tick of the interval after the
  failure does what it would have done before it. A push frame whose payload does not
  parse only writes a console entry as well, so no frame is ever applied in part.
\<close>

theorem local_errors_leave_snapshot:
  "poll_resume (Inl e) w = w\<lparr>console := console w @ [Err_PollFailed e]\<rparr>
   \<and> snapshot (step (PollResponse k (Inl e)) w) = snapshot w
   \<and> pollingTimer (step (PollResponse k (Inl e)) w) = pollingTimer w
   \<and> intervals (step (PollResponse k (Inl e)) w) = intervals w
   \<and> step (IntervalTick i) (poll_resume (Inl e) w) = poll_resume (Inl e) (step (IntervalTick i) w)
   \<and> ws_onmessage (Inl e') w = w\<lparr>console := console w @ [Err_WsParseFailed e']\<rparr>
   \<and> snapshot (step (WsMessage h (Inl e')) w) = snapshot w"
  by (simp add: poll_resume_def ws_onmessage_def console_log_def snapshot_def interval_active_def)

subsection \<open>Duplicate delivery\<close>

lemma updateFromTask_idem: "updateFromTask t (updateFromTask t w) = updateFromTask t w"
  by (simp add: updateFromTask_def)

lemma stopStatusSync_updateFromTask:
  "stopStatusSync (updateFromTask t w) = updateFromTask t (stopStatusSync w)"
  by (simp add: updateFromTask_def stopStatusSync_upd)

lemma poll_resume_idem: "poll_resume (Inr t) (poll_resume (Inr t) w) = poll_resume (Inr t) w"
  by (simp add: poll_resume_def Let_def stopStatusSync_updateFromTask stopStatusSync_idem
        updateFromTask_idem)

lemma ws_onmessage_idem:
  "(ws_onmessage (Inr d) (ws_onmessage (Inr d) w))\<lparr>console := c\<rparr>
     = (ws_onmessage (Inr d) w)\<lparr>console := c\<rparr>"
  by (cases "currentTask_value w")
     (simp_all add: ws_onmessage_def Let_def console_log_def stopStatusSync_upd
        stopStatusSync_idem)

text \<open>
  C9. Applying the same status frame a second time changes nothing. On the poll channel the
  store after two applications is the store after one. On the push channel the same holds
  up to the console, where each application logs the frame: the snapshot, both handles and
  every socket and timer are the same.
\<close>

theorem frame_application_idempotent:
  "updateFromTask t (updateFromTask t w) = updateFromTask t w
   \<and> poll_resume (Inr t) (poll_resume (Inr t) w) = poll_resume (Inr t) w
   \<and> (ws_onmessage (Inr d) (ws_onmessage (Inr d) w))\<lparr>console := c\<rparr>
       = (ws_onmessage (Inr d) w)\<lparr>console := c\<rparr>
   \<and> snapshot (ws_onmessage (Inr d) (ws_onmessage (Inr d) w)) = snapshot (ws_onmessage (Inr d) w)"
proof -
  have eq: "(ws_onmessage (Inr d) (ws_onmessage (Inr d) w))\<lparr>console := []\<rparr>
             = (ws_onmessage (Inr d) w)\<lparr>console := []\<rparr>"
    by (rule ws_onmessage_idem)
  have "currentTask_value (ws_onmessage (Inr d) (ws_onmessage (Inr d) w))
          = currentTask_value (ws_onmessage (Inr d) w)"
    using arg_cong [OF eq, of currentTask_value] by simp
  moreover have "progress_value (ws_onmessage (Inr d) (ws_onmessage (Inr d) w))
          = progress_value (ws_onmessage (Inr d) w)"
    using arg_cong [OF eq, of progress_value] by simp
  ultimately show ?thesis
    by (simp add: snapshot_def updateFromTask_idem poll_resume_idem ws_onmessage_idem)
qed

subsection \<open>Terminal frames\<close>

lemma stopStatusSync_closes_held:
  "wsConnection_value w = Some h \<Longrightarrow> readyState_of (stopStatusSync w) h \<noteq> Some CONNECTING \<and> readyState_of (stopStatusSync w) h \<noteq> Some OPEN"
  by (auto simp add: teardown_defs split: option.splits)

lemma stopStatusSync_clears_held:
  "pollingTimer w = Some i \<Longrightarrow> \<not> interval_active (stopStatusSync w) i"
  by (auto simp add: teardown_defs interval_active_def split: option.splits)

lemma poll_resume_terminal:
  "task_status task = JStr ''completed'' \<or> task_status task = JStr ''failed'' \<Longrightarrow>
   poll_resume (Inr task) w = stopStatusSync (updateFromTask task w)"
  by (auto simp add: poll_resume_def Let_def)

lemma ws_onmessage_terminal:
  assumes "\<not> nullish data" "js_prop data ''type'' \<noteq> JStr ''heartbeat''"
    "js_prop data ''status'' = JStr ''completed'' \<or> js_prop data ''status'' = JStr ''failed''"
  shows "\<exists>w'. ws_onmessage (Inr data) w = stopStatusSync w'
           \<and> wsConnection_value w' = wsConnection_value w \<and> pollingTimer w' = pollingTimer w
           \<and> intervals w' = intervals w"
  using assms by (cases "currentTask_value w") (auto simp add: ws_onmessage_def Let_def console_log_def)

lemma funpow_stopStatusSync: "(stopStatusSync ^^ Suc n) w = stopStatusSync w"
  by (induction n) (simp_all add: stopStatusSync_idem)

text \<open>
  What a terminal frame does to the handles that the store holds: both are null
  afterwards, the socket that was held is no longer connecting or open, and the interval
  that was held is no longer active. Stopping is idempotent: a second \<^verbatim>\<open>stopStatusSync\<close>,
  and any number of further ones, leaves everything as the first left it.
\<close>

lemma terminal_frame_stops_held_channels:
  assumes st: "st = JStr ''completed'' \<or> st = JStr ''failed''"
  shows "(task_status task = st \<longrightarrow>
            wsConnection_value (poll_resume (Inr task) w) = None
          \<and> pollingTimer (poll_resume (Inr task) w) = None
          \<and> (\<forall>h. wsConnection_value w = Some h \<longrightarrow>
                 readyState_of (poll_resume (Inr task) w) h \<noteq> Some CONNECTING
               \<and> readyState_of (poll_resume (Inr task) w) h \<noteq> Some OPEN)
          \<and> (\<forall>i. pollingTimer w = Some i \<longrightarrow> \<not> interval_active (poll_resume (Inr task) w) i))
       \<and> (\<not> nullish data \<and> js_prop data ''type'' \<noteq> JStr ''heartbeat'' \<and> js_prop data ''status'' = st \<longrightarrow>
            wsConnection_value (ws_onmessage (Inr data) w) = None
          \<and> pollingTimer (ws_onmessage (Inr data) w) = None
          \<and> (\<forall>h. wsConnection_value w = Some h \<longrightarrow>
                 readyState_of (ws_onmessage (Inr data) w) h \<noteq> Some CONNECTING
               \<and> readyState_of (ws_onmessage (Inr data) w) h \<noteq> Some OPEN)
          \<and> (\<forall>i. pollingTimer w = Some i \<longrightarrow> \<not> interval_active (ws_onmessage (Inr data) w) i))
       \<and> stopStatusSync (stopStatusSync w) = stopStatusSync w
       \<and> (stopStatusSync ^^ Suc n) w = stopStatusSync w"
proof (intro conjI impI)
  assume t: "task_status task = st"
  have eq: "poll_resume (Inr task) w = stopStatusSync (updateFromTask task w)"
    using st t by (intro poll_resume_terminal) simp
  have keep: "wsConnection_value (updateFromTask task w) = wsConnection_value w"
    "pollingTimer (updateFromTask task w) = pollingTimer w"
    by (simp_all add: updateFromTask_def)
  show "wsConnection_value (poll_resume (Inr task) w) = None"
    "pollingTimer (poll_resume (Inr task) w) = None"
    by (simp_all add: eq)
  show "\<forall>h. wsConnection_value w = Some h \<longrightarrow>
            readyState_of (poll_resume (Inr task) w) h \<noteq> Some CONNECTING
          \<and> readyState_of (poll_resume (Inr task) w) h \<noteq> Some OPEN"
    unfolding eq using stopStatusSync_closes_held [of "updateFromTask task w"] keep by simp
  show "\<forall>i. pollingTimer w = Some i \<longrightarrow> \<not> interval_active (poll_resume (Inr task) w) i"
    unfolding eq using stopStatusSync_clears_held [of "updateFromTask task w"] keep by simp
next
  assume d: "\<not> nullish data \<and> js_prop data ''type'' \<noteq> JStr ''heartbeat'' \<and> js_prop data ''status'' = st"
  then obtain w' where eq: "ws_onmessage (Inr data) w = stopStatusSync w'"
    and keep: "wsConnection_value w' = wsConnection_value w" "pollingTimer w' = pollingTimer w"
    using ws_onmessage_terminal [of data w] st by auto
  show "wsConnection_value (ws_onmessage (Inr data) w) = None"
    "pollingTimer (ws_onmessage (Inr data) w) = None"
    by (simp_all add: eq)
  show "\<forall>h. wsConnection_value w = Some h \<longrightarrow>
            readyState_of (ws_onmessage (Inr data) w) h \<noteq> Some CONNECTING
          \<and> readyState_of (ws_onmessage (Inr data) w) h \<noteq> Some OPEN"
    unfolding eq using stopStatusSync_closes_held [of w'] keep by simp
  show "\<forall>i. pollingTimer w = Some i \<longrightarrow> \<not> interval_active (ws_onmessage (Inr data) w) i"
    unfolding eq using stopStatusSync_clears_held [of w'] keep by simp
next
  show "stopStatusSync (stopStatusSync w) = stopStatusSync w"
    by (rule stopStatusSync_idem)
  show "(stopStatusSync ^^ Suc n) w = stopStatusSync w"
    by (rule funpow_stopStatusSync)
qed

subsection \<open>Reconnecting the push channel\<close>

lemma close_then_reconnect:
  assumes "readyState_of w h \<noteq> None" "readyState_of w h \<noteq> Some CLOSED"
    and "wsRetryCount w < MAX_WS_RETRIES"
    and "currentTask_value w = Some t" "isResearching w" "\<not> ctor_throws w (task_id t)"
  shows "step (WsClose h) w =
           w\<lparr>sockets := (sockets w)[h := (fst (sockets w ! h), CLOSED)],
             wsConnection_value := None,
             wsRetryCount := Suc (wsRetryCount w),
             timeouts := timeouts w @ [(2000, True)],
             console := console w @ [Log_WsClosed, Log_WsRetry (Suc (wsRetryCount w))]\<rparr>"
    and "run [WsClose h, TimeoutFire (length (timeouts w))] w =
           w\<lparr>sockets := (sockets w)[h := (fst (sockets w ! h), CLOSED)] @ [(task_id t, CONNECTING)],
             wsConnection_value := Some (length (sockets w)),
             wsRetryCount := Suc (wsRetryCount w),
             timeouts := timeouts w @ [(2000, False)],
             console := console w @ [Log_WsClosed, Log_WsRetry (Suc (wsRetryCount w))]\<rparr>"
  using assms
  by (simp_all add: ws_onclose_def set_readyState_def readyState_of_def console_log_def
        setTimeout_def isResearching_def reconnect_callback_def connectWebSocket_def Let_def
        split: if_splits)

lemma close_when_exhausted:
  assumes "readyState_of w h \<noteq> None" "readyState_of w h \<noteq> Some CLOSED"
    and "\<not> wsRetryCount w < MAX_WS_RETRIES"
  shows "step (WsClose h) w =
           w\<lparr>sockets := (sockets w)[h := (fst (sockets w ! h), CLOSED)],
             wsConnection_value := None,
             console := console w @ [Log_WsClosed]\<rparr>"
  using assms
  by (simp add: ws_onclose_def set_readyState_def readyState_of_def console_log_def Let_def
        split: if_splits)

text \<open>
  C6. Reconnection is bounded. Take a store whose retry counter is 0 and whose task is
  pending or running. The first closure of a socket schedules one reconnect, 2000 ms later,
  and opens nothing itself. After four closures in a row, none of the new sockets having
  opened, with each scheduled timeout fired in between, exactly three sockets have been
  constructed, each by a timeout of 2000 ms that has fired; the fourth closure schedules
  nothing and logs no error; the counter is 3, no socket is held, and all the rest of the
  store, the polling timer and the snapshot included, is as it was, so the task is tracked
  by polling alone. The open handler sets the counter to 0 in every store.
\<close>

theorem reconnect_bounded:
  assumes live: "readyState_of w h \<noteq> None" "readyState_of w h \<noteq> Some CLOSED"
    and fresh: "wsRetryCount w = 0"
    and task: "currentTask_value w = Some t" "isResearching w"
    and ctor: "\<not> ctor_throws w (task_id t)"
  shows "step (WsClose h) w =
           w\<lparr>sockets := (sockets w)[h := (fst (sockets w ! h), CLOSED)],
             wsConnection_value := None, wsRetryCount := 1,
             timeouts := timeouts w @ [(2000, True)],
             console := console w @ [Log_WsClosed, Log_WsRetry 1]\<rparr>
       \<and> run [WsClose h, TimeoutFire (length (timeouts w)),
               WsClose (length (sockets w)), TimeoutFire (length (timeouts w) + 1),
               WsClose (length (sockets w) + 1), TimeoutFire (length (timeouts w) + 2),
               WsClose (length (sockets w) + 2)] w =
           w\<lparr>sockets := (sockets w)[h := (fst (sockets w ! h), CLOSED)]
                          @ [(task_id t, CLOSED), (task_id t, CLOSED), (task_id t, CLOSED)],
             wsConnection_value := None, wsRetryCount := 3,
             timeouts := timeouts w @ [(2000, False), (2000, False), (2000, False)],
             console := console w @ [Log_WsClosed, Log_WsRetry 1, Log_WsClosed, Log_WsRetry 2,
                                     Log_WsClosed, Log_WsRetry 3, Log_WsClosed]\<rparr>
       \<and> wsRetryCount (ws_onopen w') = 0"
proof -
  define n m where "n = length (sockets w)" and "m = length (timeouts w)"
  define s0 where "s0 = (sockets w)[h := (fst (sockets w ! h), CLOSED)]"
  have len: "length s0 = n" by (simp add: s0_def n_def)
  define w1 where "w1 = run [WsClose h, TimeoutFire m] w"
  have w1: "w1 = w\<lparr>sockets := s0 @ [(task_id t, CONNECTING)],
             wsConnection_value := Some n, wsRetryCount := 1,
             timeouts := timeouts w @ [(2000, False)],
             console := console w @ [Log_WsClosed, Log_WsRetry 1]\<rparr>"
    unfolding w1_def n_def m_def s0_def
    using close_then_reconnect(2) [OF live _ task ctor] fresh by (simp add: MAX_WS_RETRIES_def)
  define w2 where "w2 = run [WsClose n, TimeoutFire (m + 1)] w1"
  have "run [WsClose n, TimeoutFire (length (timeouts w1))] w1 =
       w1\<lparr>sockets := (sockets w1)[n := (fst (sockets w1 ! n), CLOSED)] @ [(task_id t, CONNECTING)],
          wsConnection_value := Some (length (sockets w1)),
          wsRetryCount := Suc (wsRetryCount w1),
          timeouts := timeouts w1 @ [(2000, False)],
          console := console w1 @ [Log_WsClosed, Log_WsRetry (Suc (wsRetryCount w1))]\<rparr>"
    using task ctor len
    by (intro close_then_reconnect(2) [where t = t])
       (simp_all add: w1 readyState_of_def MAX_WS_RETRIES_def isResearching_def nth_append)
  then have w2: "w2 = w\<lparr>sockets := s0 @ [(task_id t, CLOSED), (task_id t, CONNECTING)],
             wsConnection_value := Some (n + 1), wsRetryCount := 2,
             timeouts := timeouts w @ [(2000, False), (2000, False)],
             console := console w @ [Log_WsClosed, Log_WsRetry 1, Log_WsClosed, Log_WsRetry 2]\<rparr>"
    unfolding w2_def using len by (simp add: w1 m_def list_update_append nth_append)
  define w3 where "w3 = run [WsClose (n + 1), TimeoutFire (m + 2)] w2"
  have "run [WsClose (n + 1), TimeoutFire (length (timeouts w2))] w2 =
       w2\<lparr>sockets := (sockets w2)[n + 1 := (fst (sockets w2 ! (n + 1)), CLOSED)] @ [(task_id t, CONNECTING)],
          wsConnection_value := Some (length (sockets w2)),
          wsRetryCount := Suc (wsRetryCount w2),
          timeouts := timeouts w2 @ [(2000, False)],
          console := console w2 @ [Log_WsClosed, Log_WsRetry (Suc (wsRetryCount w2))]\<rparr>"
    using task ctor len
    by (intro close_then_reconnect(2) [where t = t])
       (simp_all add: w2 readyState_of_def MAX_WS_RETRIES_def isResearching_def nth_append)
  then have w3: "w3 = w\<lparr>sockets := s0 @ [(task_id t, CLOSED), (task_id t, CLOSED), (task_id t, CONNECTING)],
             wsConnection_value := Some (n + 2), wsRetryCount := 3,
             timeouts := timeouts w @ [(2000, False), (2000, False), (2000, False)],
             console := console w @ [Log_WsClosed, Log_WsRetry 1, Log_WsClosed, Log_WsRetry 2,
                                     Log_WsClosed, Log_WsRetry 3]\<rparr>"
    unfolding w3_def using len by (simp add: w2 m_def list_update_append nth_append)
  have "step (WsClose (n + 2)) w3 =
          w3\<lparr>sockets := (sockets w3)[n + 2 := (fst (sockets w3 ! (n + 2)), CLOSED)],
             wsConnection_value := None, console := console w3 @ [Log_WsClosed]\<rparr>"
    using len by (intro close_when_exhausted) (simp_all add: w3 readyState_of_def MAX_WS_RETRIES_def nth_append)
  then have w4: "step (WsClose (n + 2)) w3 =
           w\<lparr>sockets := s0 @ [(task_id t, CLOSED), (task_id t, CLOSED), (task_id t, CLOSED)],
             wsConnection_value := None, wsRetryCount := 3,
             timeouts := timeouts w @ [(2000, False), (2000, False), (2000, False)],
             console := console w @ [Log_WsClosed, Log_WsRetry 1, Log_WsClosed, Log_WsRetry 2,
                                     Log_WsClosed, Log_WsRetry 3, Log_WsClosed]\<rparr>"
    using len by (simp add: w3 list_update_append nth_append)
  have chain: "run [WsClose h, TimeoutFire m, WsClose n, TimeoutFire (m + 1),
               WsClose (n + 1), TimeoutFire (m + 2), WsClose (n + 2)] w = step (WsClose (n + 2)) w3"
    by (simp add: w3_def w2_def w1_def)
  have first: "step (WsClose h) w =
           w\<lparr>sockets := (sockets w)[h := (fst (sockets w ! h), CLOSED)],
             wsConnection_value := None, wsRetryCount := 1,
             timeouts := timeouts w @ [(2000, True)],
             console := console w @ [Log_WsClosed, Log_WsRetry 1]\<rparr>"
    using close_then_reconnect(1) [OF live _ task ctor] fresh by (simp add: MAX_WS_RETRIES_def)
  have "wsRetryCount (ws_onopen w') = 0"
    by (simp add: ws_onopen_def)
  with first chain w4 show ?thesis
    unfolding n_def m_def s0_def by simp
qed

theorem reconnect_bounded_witness:
  "readyState_of tracking_world 0 = Some OPEN \<and> wsRetryCount tracking_world = 0
   \<and> currentTask_value tracking_world = Some (example_task ''running'' 0)
   \<and> isResearching tracking_world \<and> \<not> ctor_throws tracking_world ''t1''
   \<and> sockets (run [WsClose 0, TimeoutFire 0, WsClose 1, TimeoutFire 1, WsClose 2, TimeoutFire 2,
                    WsClose 3] tracking_world)
       = [(''t1'', CLOSED), (''t1'', CLOSED), (''t1'', CLOSED), (''t1'', CLOSED)]
   \<and> timeouts (run [WsClose 0, TimeoutFire 0, WsClose 1, TimeoutFire 1, WsClose 2, TimeoutFire 2,
                    WsClose 3] tracking_world)
       = [(2000, False), (2000, False), (2000, False)]
   \<and> interval_active (run [WsClose 0, TimeoutFire 0, WsClose 1, TimeoutFire 1, WsClose 2,
                    TimeoutFire 2, WsClose 3] tracking_world) 0"
  using reconnect_bounded [of tracking_world 0 "example_task ''running'' 0" tracking_world]
  by (simp add: store_defs)


subsection \<open>Applying status frames\<close>

text \<open>
  C1 as stated fails: the store has no guard on \<^verbatim>\<open>progress\<close>. With a poll frame
  \<^verbatim>\<open>{running, 10}\<close>, then a push frame \<^verbatim>\<open>{running, 40}\<close>, then the response of a status
  request sent before the push frame, \<^verbatim>\<open>{running, 25}\<close>, the snapshot's progress goes from
  40 down to 25.
\<close>

theorem stale_poll_lowers_progress:
  "progress (progress_value (run (mounted_events @
      [IntervalTick 0, PollResponse 0 (Inr (example_task ''running'' 10)),
       IntervalTick 0, WsMessage 0 (Inr (status_frame ''running'' 40))]) init_world)) = JNum 40
   \<and> progress (progress_value (run (mounted_events @
      [IntervalTick 0, PollResponse 0 (Inr (example_task ''running'' 10)),
       IntervalTick 0, WsMessage 0 (Inr (status_frame ''running'' 40)),
       PollResponse 0 (Inr (example_task ''running'' 25))]) init_world)) = JNum 25"
  by (simp add: mounted_events_def store_defs)

text \<open>
  C1, amended. A status frame of either channel overwrites the progress record field by
  field, \<^verbatim>\<open>progress\<close> included: after the frame is applied the snapshot's progress is the
  frame's progress, whatever value was held before. The progress that is observed follows
  the order in which the frames are applied.
\<close>

theorem frame_overwrites_progress:
  "progress_value (updateFromTask task w) =
      \<lparr>status = task_status task, progress = task_progress task,
       currentAgent = js_or (current_agent task) (JStr ''''),
       currentTask = js_or (current_task task) (JStr ''''),
       estimatedTime = js_or (estimated_time task) (JNum 0)\<rparr>
   \<and> progress (progress_value (poll_resume (Inr task) w)) = task_progress task
   \<and> (k < length (inflight w) \<longrightarrow>
        progress (progress_value (step (PollResponse k (Inr task)) w)) = task_progress task)
   \<and> (\<not> nullish data \<and> js_prop data ''type'' \<noteq> JStr ''heartbeat'' \<longrightarrow>
        progress_value (ws_onmessage (Inr data) w) =
          \<lparr>status = js_prop data ''status'', progress = js_prop data ''progress'',
           currentAgent = js_or (js_prop data ''currentAgent'') (JStr ''''),
           currentTask = js_or (js_prop data ''currentTask'') (JStr ''''),
           estimatedTime = js_or (js_prop data ''estimatedTime'') (JNum 0)\<rparr>)
   \<and> (readyState_of w h = Some OPEN \<and> \<not> nullish data \<and> js_prop data ''type'' \<noteq> JStr ''heartbeat'' \<longrightarrow>
        progress (progress_value (step (WsMessage h (Inr data)) w)) = js_prop data ''progress'')"
  by (cases "currentTask_value w")
     (simp_all add: updateFromTask_def poll_resume_def ws_onmessage_def Let_def console_log_def)

theorem frame_overwrites_progress_witness:
  "progress (progress_value tracking_world) = JNum 0
   \<and> 0 < length (inflight tracking_world)
   \<and> progress (progress_value (step (PollResponse 0 (Inr (example_task ''running'' 60))) tracking_world)) = JNum 60
   \<and> readyState_of (step (PollResponse 0 (Inr (example_task ''running'' 60))) tracking_world) 0 = Some OPEN
   \<and> \<not> nullish (status_frame ''running'' 35)
   \<and> js_prop (status_frame ''running'' 35) ''type'' \<noteq> JStr ''heartbeat''
   \<and> progress (progress_value (step (WsMessage 0 (Inr (status_frame ''running'' 35)))
        (step (PollResponse 0 (Inr (example_task ''running'' 60))) tracking_world))) = JNum 35"
  using frame_overwrites_progress [of "example_task ''running'' 60" tracking_world 0 "status_frame ''running'' 35" 0]
    frame_overwrites_progress [of "example_task ''running'' 60" "step (PollResponse 0 (Inr (example_task ''running'' 60))) tracking_world" 0 "status_frame ''running'' 35" 0]
  by (simp add: store_defs)

text \<open>
  C2 as stated fails: the store never compares a frame's status with the one it holds.
  With the snapshot at \<^verbatim>\<open>running\<close>, a poll response that still says \<^verbatim>\<open>pending\<close> is applied
  in full: the status, the progress and the current task all become the frame's.
\<close>

theorem backward_status_is_applied:
  "status (progress_value (run (mounted_events @
      [IntervalTick 0, WsMessage 0 (Inr (status_frame ''running'' 40))]) init_world)) = JStr ''running''
   \<and> snapshot (run (mounted_events @
      [IntervalTick 0, WsMessage 0 (Inr (status_frame ''running'' 40)),
       PollResponse 0 (Inr (example_task ''pending'' 0))]) init_world)
     = (Some (example_task ''pending'' 0),
        \<lparr>status = JStr ''pending'', progress = JNum 0, currentAgent = JStr ''a'',
         currentTask = JStr ''b'', estimatedTime = JNum 0\<rparr>)"
  by (simp add: mounted_events_def store_defs)

text \<open>
  C2, amended. No frame is discarded for its status: after a status frame of either channel
  is applied, the status of the progress record, and of the current task when there is one,
  is the frame's status, whatever status was held before.
\<close>

theorem frame_overwrites_status:
  "status (progress_value (poll_resume (Inr task) w)) = task_status task
   \<and> currentTask_value (poll_resume (Inr task) w) = Some task
   \<and> (k < length (inflight w) \<longrightarrow>
        status (progress_value (step (PollResponse k (Inr task)) w)) = task_status task)
   \<and> (\<not> nullish data \<and> js_prop data ''type'' \<noteq> JStr ''heartbeat'' \<longrightarrow>
        status (progress_value (ws_onmessage (Inr data) w)) = js_prop data ''status''
      \<and> map_option task_status (currentTask_value (ws_onmessage (Inr data) w))
          = map_option (\<lambda>t. js_prop data ''status'') (currentTask_value w))
   \<and> (readyState_of w h = Some OPEN \<and> \<not> nullish data \<and> js_prop data ''type'' \<noteq> JStr ''heartbeat'' \<longrightarrow>
        status (progress_value (step (WsMessage h (Inr data)) w)) = js_prop data ''status'')"
  by (cases "currentTask_value w")
     (simp_all add: updateFromTask_def poll_resume_def ws_onmessage_def Let_def console_log_def)

theorem frame_overwrites_status_witness:
  "status (progress_value tracking_world) = JStr ''running''
   \<and> readyState_of tracking_world 0 = Some OPEN
   \<and> \<not> nullish (status_frame ''pending'' 0)
   \<and> js_prop (status_frame ''pending'' 0) ''type'' \<noteq> JStr ''heartbeat''
   \<and> status (progress_value (step (WsMessage 0 (Inr (status_frame ''pending'' 0))) tracking_world)) = JStr ''pending''
   \<and> map_option task_status (currentTask_value (step (WsMessage 0 (Inr (status_frame ''pending'' 0))) tracking_world)) = Some (JStr ''pending'')
   \<and> 0 < length (inflight tracking_world)
   \<and> status (progress_value (step (PollResponse 0 (Inr (example_task ''pending'' 0))) tracking_world)) = JStr ''pending''"
  using frame_overwrites_status [of "example_task ''pending'' 0" tracking_world 0 "status_frame ''pending'' 0" 0]
  by (simp add: store_defs)


subsection \<open>After a terminal frame\<close>

text \<open>
  C3 as stated fails: a terminal snapshot is not immutable. A push frame
  \<^verbatim>\<open>{completed, 100}\<close> makes the snapshot terminal; the response of a status request sent
  before it, \<^verbatim>\<open>{running, 90}\<close>, is then applied in full and the snapshot is running again.
\<close>

theorem stale_poll_reopens_completed_task:
  "snapshot (run (mounted_events @
      [IntervalTick 0, WsMessage 0 (Inr (status_frame ''completed'' 100))]) init_world)
     = (Some (example_task ''completed'' 100),
        \<lparr>status = JStr ''completed'', progress = JNum 100, currentAgent = JStr ''a'',
         currentTask = JStr ''b'', estimatedTime = JNum 0\<rparr>)
   \<and> snapshot (run (mounted_events @
      [IntervalTick 0, WsMessage 0 (Inr (status_frame ''completed'' 100)),
       PollResponse 0 (Inr (example_task ''running'' 90))]) init_world)
     = (Some (example_task ''running'' 90),
        \<lparr>status = JStr ''running'', progress = JNum 90, currentAgent = JStr ''a'',
         currentTask = JStr ''b'', estimatedTime = JNum 0\<rparr>)"
  by (simp add: mounted_events_def store_defs)

lemma closed_socket_gets_no_message:
  "readyState_of w h \<noteq> Some OPEN \<Longrightarrow> step (WsMessage h p) w = w"
  by simp

lemma cleared_interval_does_not_tick:
  "\<not> interval_active w i \<Longrightarrow> step (IntervalTick i) w = w"
  by simp

subsection \<open>Cancelling\<close>

text \<open>
  C4 as stated fails: with one status request in flight, \<^verbatim>\<open>cleanup\<close> resets the snapshot,
  and the response of that request, arriving afterwards, is applied in full: the current
  task and the progress record are set again.
\<close>

theorem in_flight_poll_mutates_after_cleanup:
  "inflight tracking_world = [''t1'']
   \<and> snapshot (step Cleanup tracking_world) = (None, initial_progress)
   \<and> snapshot (step (PollResponse 0 (Inr (example_task ''running'' 50))) (step Cleanup tracking_world))
       = (Some (example_task ''running'' 50),
          \<lparr>status = JStr ''running'', progress = JNum 50, currentAgent = JStr ''a'',
           currentTask = JStr ''b'', estimatedTime = JNum 0\<rparr>)"
  by (simp add: store_defs)

lemma cleanup_eq:
  "cleanup w = (stopStatusSync w)\<lparr>currentTask_value := None, progress_value := initial_progress\<rparr>"
  by (simp add: cleanup_def resetProgress_def)

lemma readyState_of_snapshot_upd [simp]:
  "readyState_of (w\<lparr>currentTask_value := t, progress_value := p\<rparr>) h = readyState_of w h"
  "interval_active (w\<lparr>currentTask_value := t, progress_value := p\<rparr>) i = interval_active w i"
  by (simp_all add: readyState_of_def interval_active_def)

subsection \<open>One transport per channel\<close>

text \<open>
  The polling half of the invariant: whatever happens, at most one interval is active,
  the one held in \<^verbatim>\<open>pollingTimer\<close>.
\<close>

lemma polling_inv_init: "polling_inv init_world"
  by (simp add: polling_inv_def init_world_def)

lemma polling_inv_same:
  "intervals w' = intervals w \<Longrightarrow> pollingTimer w' = pollingTimer w \<Longrightarrow> polling_inv w
   \<Longrightarrow> polling_inv w'"
  by (simp add: polling_inv_def)

lemma polling_inv_stopPolling:
  "polling_inv w \<Longrightarrow> polling_inv (stopPolling w)
     \<and> (\<forall>i < length (intervals (stopPolling w)). \<not> snd (snd (intervals (stopPolling w) ! i)))"
  by (auto simp add: polling_inv_def stopPolling_def clearInterval_def nth_list_update
        split: option.splits)

lemma polling_inv_startPolling: "polling_inv w \<Longrightarrow> polling_inv (startPolling taskId w)"
  using polling_inv_stopPolling [of w]
  by (auto simp add: polling_inv_def startPolling_def Let_def nth_append)

lemma connectWebSocket_polling [simp]:
  "intervals (connectWebSocket taskId w) = intervals w"
  "pollingTimer (connectWebSocket taskId w) = pollingTimer w"
  by (simp_all add: connectWebSocket_def Let_def console_log_def ws_close_def set_readyState_def
        split: option.splits)

lemma polling_inv_stopStatusSync: "polling_inv w \<Longrightarrow> polling_inv (stopStatusSync w)"
proof -
  assume inv: "polling_inv w"
  define w1 where "w1 = (case wsConnection_value w of None \<Rightarrow> w
                         | Some h \<Rightarrow> (ws_close h w)\<lparr>wsConnection_value := None\<rparr>)"
  have "intervals w1 = intervals w" "pollingTimer w1 = pollingTimer w"
    by (simp_all add: w1_def ws_close_def set_readyState_def split: option.splits)
  then have "polling_inv w1"
    using inv by (rule polling_inv_same)
  then have "polling_inv (stopPolling w1)"
    using polling_inv_stopPolling by blast
  then show ?thesis
    by (simp add: stopStatusSync_def w1_def)
qed

lemma ws_onmessage_polling:
  assumes "\<not> (\<not> nullish data \<and> js_prop data ''type'' \<noteq> JStr ''heartbeat''
              \<and> (js_prop data ''status'' = JStr ''completed''
                   \<or> js_prop data ''status'' = JStr ''failed''))"
  shows "intervals (ws_onmessage (Inr data) w) = intervals w
       \<and> pollingTimer (ws_onmessage (Inr data) w) = pollingTimer w"
proof (cases "nullish data \<or> js_prop data ''type'' = JStr ''heartbeat''")
  case True
  then show ?thesis
    by (auto simp add: ws_onmessage_def console_log_def)
next
  case False
  with assms have "js_prop data ''status'' \<noteq> JStr ''completed''"
    "js_prop data ''status'' \<noteq> JStr ''failed''"
    by simp_all
  with False show ?thesis
    by (cases "currentTask_value w") (simp_all add: ws_onmessage_def Let_def console_log_def)
qed

lemma polling_inv_step: "polling_inv w \<Longrightarrow> polling_inv (step e w)"
proof (cases e)
  case (StartStatusSync taskId)
  assume inv: "polling_inv w"
  have "polling_inv (connectWebSocket taskId (w\<lparr>wsRetryCount := 0\<rparr>))"
    by (rule polling_inv_same [OF _ _ inv]) simp_all
  then show ?thesis
    by (simp add: StartStatusSync startStatusSync_def polling_inv_startPolling)
next
  case StopStatusSync
  assume "polling_inv w"
  then show ?thesis by (simp add: StopStatusSync polling_inv_stopStatusSync)
next
  case Cleanup
  assume "polling_inv w"
  then have "polling_inv (stopStatusSync w)" by (rule polling_inv_stopStatusSync)
  then show ?thesis
    by (simp add: Cleanup cleanup_def resetProgress_def polling_inv_def)
next
  case (ConnectWebSocket taskId)
  assume inv: "polling_inv w"
  show ?thesis
    unfolding ConnectWebSocket step.simps by (rule polling_inv_same [OF _ _ inv]) simp_all
next
  case ResetProgress
  assume "polling_inv w"
  then show ?thesis by (simp add: ResetProgress resetProgress_def polling_inv_def)
next
  case (FetchTaskStatusDone r)
  assume "polling_inv w"
  then show ?thesis
    by (cases r) (simp_all add: FetchTaskStatusDone fetchTaskStatus_resume_def updateFromTask_def
          polling_inv_def)
next
  case (WsOpen h)
  assume "polling_inv w"
  then show ?thesis
    by (simp add: WsOpen ws_onopen_def console_log_def set_readyState_def polling_inv_def)
next
  case (WsMessage h parsed)
  assume inv: "polling_inv w"
  have "polling_inv (ws_onmessage parsed w)"
  proof (cases parsed)
    case (Inl err)
    then show ?thesis
      using inv by (simp add: ws_onmessage_def console_log_def polling_inv_def)
  next
    case (Inr data)
    show ?thesis
    proof (cases "\<not> nullish data \<and> js_prop data ''type'' \<noteq> JStr ''heartbeat''
              \<and> (js_prop data ''status'' = JStr ''completed''
                   \<or> js_prop data ''status'' = JStr ''failed'')")
      case True
      then obtain w' where eq: "ws_onmessage (Inr data) w = stopStatusSync w'"
        and keep: "pollingTimer w' = pollingTimer w" "intervals w' = intervals w"
        using ws_onmessage_terminal [of data w] by auto
      from keep(2,1) inv have "polling_inv w'"
        by (rule polling_inv_same)
      then show ?thesis
        by (simp add: Inr eq polling_inv_stopStatusSync)
    next
      case False
      then show ?thesis
        using ws_onmessage_polling [of data w] inv polling_inv_same Inr by blast
    qed
  qed
  then show ?thesis
    using inv by (simp add: WsMessage)
next
  case (WsError h)
  assume "polling_inv w"
  then show ?thesis
    by (simp add: WsError ws_onerror_def console_log_def polling_inv_def)
next
  case (WsClose h)
  assume "polling_inv w"
  then show ?thesis
    by (simp add: WsClose ws_onclose_def console_log_def set_readyState_def setTimeout_def
          Let_def polling_inv_def)
next
  case (IntervalTick i)
  assume "polling_inv w"
  then show ?thesis by (simp add: IntervalTick polling_inv_def)
next
  case (PollResponse k r)
  assume inv: "polling_inv w"
  have "polling_inv (poll_resume r (w\<lparr>inflight := remove_nth k (inflight w)\<rparr>))"
  proof (cases r)
    case (Inl err)
    then show ?thesis
      using inv by (simp add: poll_resume_def console_log_def polling_inv_def)
  next
    case (Inr task)
    have "polling_inv (updateFromTask task (w\<lparr>inflight := remove_nth k (inflight w)\<rparr>))"
      by (rule polling_inv_same [OF _ _ inv]) (simp_all add: updateFromTask_def)
    then show ?thesis
      by (simp add: Inr poll_resume_def Let_def polling_inv_stopStatusSync)
  qed
  then show ?thesis
    using inv by (simp add: PollResponse)
next
  case (TimeoutFire t)
  assume inv: "polling_inv w"
  have "polling_inv (reconnect_callback (w\<lparr>timeouts := (timeouts w)[t := (fst (timeouts w ! t), False)]\<rparr>))"
    by (rule polling_inv_same [OF _ _ inv])
       (simp_all add: reconnect_callback_def split: option.splits)
  then show ?thesis
    using inv by (simp add: TimeoutFire)
qed

lemma polling_inv_run: "polling_inv w \<Longrightarrow> polling_inv (run es w)"
  by (induction es arbitrary: w) (simp_all add: polling_inv_step)

lemma at_most_one_active_interval:
  assumes "interval_active (run es init_world) i" "interval_active (run es init_world) j"
  shows "i = j"
proof -
  have inv: "polling_inv (run es init_world)"
    by (rule polling_inv_run [OF polling_inv_init])
  from inv assms(1) have "pollingTimer (run es init_world) = Some i"
    by (simp add: polling_inv_def interval_active_def)
  moreover from inv assms(2) have "pollingTimer (run es init_world) = Some j"
    by (simp add: polling_inv_def interval_active_def)
  ultimately show ?thesis by simp
qed


text \<open>
  C10. Two sockets can be open at once. When the channels are started a second time,
  \<^verbatim>\<open>connectWebSocket\<close> closes the first socket and holds the second; the close event of the
  first then sets \<^verbatim>\<open>wsConnection\<close> to null, although it holds the second socket by now, and
  schedules a reconnect, which opens a third. The second socket stays open next to the
  third, \<^verbatim>\<open>stopStatusSync\<close> closes only the third, and frames of the second are still
  applied after it.
\<close>

theorem stale_close_leaves_two_open_sockets:
  "sockets (run remount_events init_world) = [(''t1'', CLOSED), (''t1'', OPEN), (''t1'', OPEN)]
   \<and> wsConnection_value (run remount_events init_world) = Some 2
   \<and> sockets (stopStatusSync (run remount_events init_world))
       = [(''t1'', CLOSED), (''t1'', OPEN), (''t1'', CLOSING)]
   \<and> progress (progress_value (step (WsMessage 1 (Inr (status_frame ''running'' 7)))
                  (stopStatusSync (run remount_events init_world)))) = JNum 7"
  by (simp add: remount_events_def mounted_events_def store_defs)

subsection \<open>Stopped channels stay stopped\<close>

text \<open>
  No event reopens a socket that is closing or closed, and none reactivates an interval
  that has been cleared: a new socket or interval always gets a new handle.
\<close>

lemma socket_dead_same: "sockets w' = sockets w \<Longrightarrow> socket_dead w' h = socket_dead w h"
  by (simp add: socket_dead_def)

lemma socket_dead_ws_close: "socket_dead w h \<Longrightarrow> socket_dead (ws_close k w) h"
  by (auto simp add: socket_dead_def readyState_of_def ws_close_def set_readyState_def nth_list_update)

lemma socket_dead_closed: "socket_dead w h \<Longrightarrow> socket_dead (set_readyState k CLOSED w) h"
  by (auto simp add: socket_dead_def readyState_of_def set_readyState_def nth_list_update)

lemma socket_dead_open:
  "socket_dead w h \<Longrightarrow> readyState_of w k = Some CONNECTING \<Longrightarrow> socket_dead (set_readyState k OPEN w) h"
  by (auto simp add: socket_dead_def readyState_of_def set_readyState_def nth_list_update split: if_splits)

lemma socket_dead_stopStatusSync: "socket_dead w h \<Longrightarrow> socket_dead (stopStatusSync w) h"
proof -
  assume d: "socket_dead w h"
  define w1 where "w1 = (case wsConnection_value w of None \<Rightarrow> w
                         | Some k \<Rightarrow> (ws_close k w)\<lparr>wsConnection_value := None\<rparr>)"
  have d1: "socket_dead w1 h"
  proof (cases "wsConnection_value w")
    case None
    with d show ?thesis by (simp add: w1_def)
  next
    case (Some k)
    have "socket_dead ((ws_close k w)\<lparr>wsConnection_value := None\<rparr>) h = socket_dead (ws_close k w) h"
      by (rule socket_dead_same) simp
    with d Some show ?thesis by (simp add: w1_def socket_dead_ws_close)
  qed
  have "sockets (stopPolling w1) = sockets w1"
    by (simp add: stopPolling_def clearInterval_def split: option.splits)
  then have "socket_dead (stopPolling w1) h = socket_dead w1 h"
    by (rule socket_dead_same)
  moreover have "stopStatusSync w = stopPolling w1"
    by (simp add: stopStatusSync_def w1_def)
  ultimately show ?thesis
    using d1 by simp
qed

lemma socket_dead_connectWebSocket: "socket_dead w h \<Longrightarrow> socket_dead (connectWebSocket taskId w) h"
proof -
  assume d: "socket_dead w h"
  define w1 where "w1 = (case wsConnection_value w of None \<Rightarrow> w | Some k \<Rightarrow> ws_close k w)"
  have d1: "socket_dead w1 h"
    using d by (cases "wsConnection_value w") (simp_all add: w1_def socket_dead_ws_close)
  then have "h < length (sockets w1)"
    by (simp add: socket_dead_def)
  with d1 have new: "socket_dead (w1\<lparr>sockets := sockets w1 @ [(taskId, CONNECTING)],
                 wsConnection_value := Some (length (sockets w1))\<rparr>) h"
    by (simp add: socket_dead_def nth_append)
  have thrown: "socket_dead (console_log Err_WsCreateFailed w1) h"
    using d1 by (simp add: socket_dead_def console_log_def)
  have "connectWebSocket taskId w =
          (if ctor_throws w1 taskId then console_log Err_WsCreateFailed w1
           else w1\<lparr>sockets := sockets w1 @ [(taskId, CONNECTING)],
                   wsConnection_value := Some (length (sockets w1))\<rparr>)"
    by (simp add: connectWebSocket_def Let_def w1_def)
  with new thrown show ?thesis
    by (cases "ctor_throws w1 taskId") simp_all
qed

lemma sockets_kept:
  "sockets (console_log entry w) = sockets w"
  "sockets (updateFromTask task w) = sockets w"
  "sockets (stopPolling w) = sockets w"
  "sockets (startPolling taskId w) = sockets w"
  "sockets (ws_onclose w) = sockets w"
  "sockets (ws_onopen w) = sockets w"
  "sockets (ws_onerror w) = sockets w"
  "sockets (resetProgress w) = sockets w"
  by (simp_all add: console_log_def updateFromTask_def stopPolling_def clearInterval_def
        startPolling_def ws_onclose_def ws_onopen_def ws_onerror_def resetProgress_def
        setTimeout_def Let_def split: option.splits)

lemma intervals_kept:
  "intervals (console_log entry w) = intervals w"
  "intervals (updateFromTask task w) = intervals w"
  "intervals (ws_close h w) = intervals w"
  "intervals (set_readyState h st w) = intervals w"
  "intervals (ws_onclose w) = intervals w"
  "intervals (ws_onopen w) = intervals w"
  "intervals (ws_onerror w) = intervals w"
  "intervals (resetProgress w) = intervals w"
  "intervals (reconnect_callback w) = intervals w"
  by (simp_all add: console_log_def updateFromTask_def ws_close_def set_readyState_def
        ws_onclose_def ws_onopen_def ws_onerror_def resetProgress_def setTimeout_def
        reconnect_callback_def Let_def split: option.splits)

lemma ws_onmessage_effect:
  "(sockets (ws_onmessage parsed w) = sockets w \<and> intervals (ws_onmessage parsed w) = intervals w)
   \<or> (\<exists>w'. ws_onmessage parsed w = stopStatusSync w' \<and> sockets w' = sockets w
            \<and> intervals w' = intervals w)"
proof (cases parsed)
  case (Inl err)
  then show ?thesis
    by (simp add: ws_onmessage_def console_log_def)
next
  case (Inr data)
  show ?thesis
  proof (cases "nullish data \<or> js_prop data ''type'' = JStr ''heartbeat''")
    case True
    then show ?thesis
      by (auto simp add: Inr ws_onmessage_def console_log_def)
  next
    case False
    then show ?thesis
      by (cases "currentTask_value w")
         (auto simp add: Inr ws_onmessage_def Let_def console_log_def)
  qed
qed

lemma poll_resume_effect:
  "(sockets (poll_resume r w) = sockets w \<and> intervals (poll_resume r w) = intervals w)
   \<or> (\<exists>w'. poll_resume r w = stopStatusSync w' \<and> sockets w' = sockets w
            \<and> intervals w' = intervals w)"
proof (cases r)
  case (Inl err)
  then show ?thesis
    by (simp add: poll_resume_def console_log_def)
next
  case (Inr task)
  have "sockets (updateFromTask task w) = sockets w \<and> intervals (updateFromTask task w) = intervals w"
    by (simp add: updateFromTask_def)
  then show ?thesis
    unfolding Inr poll_resume_def Let_def by auto
qed

lemma socket_dead_step: "socket_dead w h \<Longrightarrow> socket_dead (step e w) h"
proof (cases e)
  case (StartStatusSync taskId)
  assume d: "socket_dead w h"
  have "socket_dead (w\<lparr>wsRetryCount := 0\<rparr>) h = socket_dead w h"
    by (rule socket_dead_same) simp
  with d have "socket_dead (connectWebSocket taskId (w\<lparr>wsRetryCount := 0\<rparr>)) h"
    by (simp add: socket_dead_connectWebSocket)
  moreover have "socket_dead (startPolling taskId (connectWebSocket taskId (w\<lparr>wsRetryCount := 0\<rparr>))) h
      = socket_dead (connectWebSocket taskId (w\<lparr>wsRetryCount := 0\<rparr>)) h"
    by (rule socket_dead_same) (simp add: sockets_kept)
  ultimately show ?thesis
    by (simp add: StartStatusSync startStatusSync_def)
next
  case StopStatusSync
  assume "socket_dead w h"
  then show ?thesis by (simp add: StopStatusSync socket_dead_stopStatusSync)
next
  case Cleanup
  assume "socket_dead w h"
  then have "socket_dead (stopStatusSync w) h" by (rule socket_dead_stopStatusSync)
  moreover have "socket_dead (cleanup w) h = socket_dead (stopStatusSync w) h"
    by (rule socket_dead_same) (simp add: cleanup_def resetProgress_def)
  ultimately show ?thesis by (simp add: Cleanup)
next
  case (ConnectWebSocket taskId)
  assume "socket_dead w h"
  then show ?thesis by (simp add: ConnectWebSocket socket_dead_connectWebSocket)
next
  case ResetProgress
  assume "socket_dead w h"
  then show ?thesis by (simp add: ResetProgress resetProgress_def socket_dead_def)
next
  case (FetchTaskStatusDone r)
  assume "socket_dead w h"
  then show ?thesis
    by (cases r) (simp_all add: FetchTaskStatusDone fetchTaskStatus_resume_def updateFromTask_def
          socket_dead_def)
next
  case (WsOpen k)
  assume d: "socket_dead w h"
  show ?thesis
  proof (cases "readyState_of w k = Some CONNECTING")
    case True
    with d have "socket_dead (set_readyState k OPEN w) h" by (simp add: socket_dead_open)
    moreover have "socket_dead (ws_onopen (set_readyState k OPEN w)) h
        = socket_dead (set_readyState k OPEN w) h"
      by (rule socket_dead_same) (simp add: sockets_kept)
    ultimately show ?thesis using True by (simp add: WsOpen)
  next
    case False
    with d show ?thesis by (simp add: WsOpen)
  qed
next
  case (WsMessage k parsed)
  assume d: "socket_dead w h"
  from ws_onmessage_effect [of parsed w] have "socket_dead (ws_onmessage parsed w) h"
  proof
    assume "sockets (ws_onmessage parsed w) = sockets w \<and> intervals (ws_onmessage parsed w) = intervals w"
    then have "socket_dead (ws_onmessage parsed w) h = socket_dead w h"
      by (intro socket_dead_same) simp
    with d show ?thesis by simp
  next
    assume "\<exists>w'. ws_onmessage parsed w = stopStatusSync w' \<and> sockets w' = sockets w
            \<and> intervals w' = intervals w"
    then obtain w' where eq: "ws_onmessage parsed w = stopStatusSync w'" and s: "sockets w' = sockets w"
      by blast
    from s have "socket_dead w' h = socket_dead w h" by (rule socket_dead_same)
    with d show ?thesis by (simp add: eq socket_dead_stopStatusSync)
  qed
  with d show ?thesis by (simp add: WsMessage)
next
  case (WsError k)
  assume "socket_dead w h"
  then show ?thesis by (simp add: WsError ws_onerror_def console_log_def socket_dead_def)
next
  case (WsClose k)
  assume d: "socket_dead w h"
  then have "socket_dead (set_readyState k CLOSED w) h" by (rule socket_dead_closed)
  moreover have "socket_dead (ws_onclose (set_readyState k CLOSED w)) h
      = socket_dead (set_readyState k CLOSED w) h"
    by (rule socket_dead_same) (simp add: sockets_kept)
  ultimately show ?thesis using d by (simp add: WsClose)
next
  case (IntervalTick i)
  assume "socket_dead w h"
  then show ?thesis by (simp add: IntervalTick socket_dead_def)
next
  case (PollResponse k r)
  assume d: "socket_dead w h"
  define w0 where "w0 = w\<lparr>inflight := remove_nth k (inflight w)\<rparr>"
  have d0: "socket_dead w0 h" using d by (simp add: w0_def socket_dead_def)
  from poll_resume_effect [of r w0] have "socket_dead (poll_resume r w0) h"
  proof
    assume "sockets (poll_resume r w0) = sockets w0 \<and> intervals (poll_resume r w0) = intervals w0"
    then have "socket_dead (poll_resume r w0) h = socket_dead w0 h"
      by (intro socket_dead_same) simp
    with d0 show ?thesis by simp
  next
    assume "\<exists>w'. poll_resume r w0 = stopStatusSync w' \<and> sockets w' = sockets w0
            \<and> intervals w' = intervals w0"
    then obtain w' where eq: "poll_resume r w0 = stopStatusSync w'" and s: "sockets w' = sockets w0"
      by blast
    from s have "socket_dead w' h = socket_dead w0 h" by (rule socket_dead_same)
    with d0 show ?thesis by (simp add: eq socket_dead_stopStatusSync)
  qed
  with d show ?thesis by (simp add: PollResponse w0_def)
next
  case (TimeoutFire t)
  assume d: "socket_dead w h"
  define w0 where "w0 = w\<lparr>timeouts := (timeouts w)[t := (fst (timeouts w ! t), False)]\<rparr>"
  have d0: "socket_dead w0 h" using d by (simp add: w0_def socket_dead_def)
  have "socket_dead (reconnect_callback w0) h"
    using d0 by (simp add: reconnect_callback_def socket_dead_connectWebSocket split: option.splits)
  with d show ?thesis by (simp add: TimeoutFire w0_def)
qed

lemma socket_dead_run: "socket_dead w h \<Longrightarrow> socket_dead (run es w) h"
  by (induction es arbitrary: w) (simp_all add: socket_dead_step)

lemma dead_socket_never_delivers:
  "socket_dead w h \<Longrightarrow> step (WsMessage h parsed) (run es w) = run es w"
  using socket_dead_run [of w h es] by (auto simp add: socket_dead_def readyState_of_def)

lemma interval_dead_same: "intervals w' = intervals w \<Longrightarrow> interval_dead w' i = interval_dead w i"
  by (simp add: interval_dead_def)

lemma interval_dead_stopPolling: "interval_dead w i \<Longrightarrow> interval_dead (stopPolling w) i"
  by (auto simp add: interval_dead_def stopPolling_def clearInterval_def nth_list_update
        split: option.splits)

lemma interval_dead_startPolling: "interval_dead w i \<Longrightarrow> interval_dead (startPolling taskId w) i"
  using interval_dead_stopPolling [of w i]
  by (simp add: interval_dead_def startPolling_def Let_def nth_append)

lemma interval_dead_stopStatusSync: "interval_dead w i \<Longrightarrow> interval_dead (stopStatusSync w) i"
proof -
  assume d: "interval_dead w i"
  define w1 where "w1 = (case wsConnection_value w of None \<Rightarrow> w
                         | Some k \<Rightarrow> (ws_close k w)\<lparr>wsConnection_value := None\<rparr>)"
  have "intervals w1 = intervals w"
    by (simp add: w1_def intervals_kept split: option.splits)
  then have "interval_dead w1 i = interval_dead w i"
    by (rule interval_dead_same)
  with d have "interval_dead (stopPolling w1) i"
    by (simp add: interval_dead_stopPolling)
  then show ?thesis
    by (simp add: stopStatusSync_def w1_def)
qed

lemma interval_dead_step: "interval_dead w i \<Longrightarrow> interval_dead (step e w) i"
proof (cases e)
  case (StartStatusSync taskId)
  assume d: "interval_dead w i"
  have "interval_dead (connectWebSocket taskId (w\<lparr>wsRetryCount := 0\<rparr>)) i = interval_dead w i"
    by (rule interval_dead_same) simp
  with d show ?thesis
    by (simp add: StartStatusSync startStatusSync_def interval_dead_startPolling)
next
  case StopStatusSync
  assume "interval_dead w i"
  then show ?thesis by (simp add: StopStatusSync interval_dead_stopStatusSync)
next
  case Cleanup
  assume "interval_dead w i"
  then have "interval_dead (stopStatusSync w) i" by (rule interval_dead_stopStatusSync)
  moreover have "interval_dead (cleanup w) i = interval_dead (stopStatusSync w) i"
    by (rule interval_dead_same) (simp add: cleanup_def resetProgress_def)
  ultimately show ?thesis by (simp add: Cleanup)
next
  case (ConnectWebSocket taskId)
  assume d: "interval_dead w i"
  have "interval_dead (connectWebSocket taskId w) i = interval_dead w i"
    by (rule interval_dead_same) simp
  with d show ?thesis by (simp add: ConnectWebSocket)
next
  case ResetProgress
  assume "interval_dead w i"
  then show ?thesis by (simp add: ResetProgress resetProgress_def interval_dead_def)
next
  case (FetchTaskStatusDone r)
  assume "interval_dead w i"
  then show ?thesis
    by (cases r) (simp_all add: FetchTaskStatusDone fetchTaskStatus_resume_def updateFromTask_def
          interval_dead_def)
next
  case (WsOpen k)
  assume d: "interval_dead w i"
  have "interval_dead (ws_onopen (set_readyState k OPEN w)) i = interval_dead w i"
    by (rule interval_dead_same) (simp add: intervals_kept)
  with d show ?thesis by (simp add: WsOpen)
next
  case (WsMessage k parsed)
  assume d: "interval_dead w i"
  from ws_onmessage_effect [of parsed w] have "interval_dead (ws_onmessage parsed w) i"
  proof
    assume "sockets (ws_onmessage parsed w) = sockets w \<and> intervals (ws_onmessage parsed w) = intervals w"
    then have "interval_dead (ws_onmessage parsed w) i = interval_dead w i"
      by (intro interval_dead_same) simp
    with d show ?thesis by simp
  next
    assume "\<exists>w'. ws_onmessage parsed w = stopStatusSync w' \<and> sockets w' = sockets w
            \<and> intervals w' = intervals w"
    then obtain w' where eq: "ws_onmessage parsed w = stopStatusSync w'"
      and s: "intervals w' = intervals w"
      by blast
    from s have "interval_dead w' i = interval_dead w i" by (rule interval_dead_same)
    with d show ?thesis by (simp add: eq interval_dead_stopStatusSync)
  qed
  with d show ?thesis by (simp add: WsMessage)
next
  case (WsError k)
  assume "interval_dead w i"
  then show ?thesis by (simp add: WsError ws_onerror_def console_log_def interval_dead_def)
next
  case (WsClose k)
  assume d: "interval_dead w i"
  have "interval_dead (ws_onclose (set_readyState k CLOSED w)) i = interval_dead w i"
    by (rule interval_dead_same) (simp add: intervals_kept)
  with d show ?thesis by (simp add: WsClose)
next
  case (IntervalTick k)
  assume "interval_dead w i"
  then show ?thesis by (simp add: IntervalTick interval_dead_def)
next
  case (PollResponse k r)
  assume d: "interval_dead w i"
  define w0 where "w0 = w\<lparr>inflight := remove_nth k (inflight w)\<rparr>"
  have d0: "interval_dead w0 i" using d by (simp add: w0_def interval_dead_def)
  from poll_resume_effect [of r w0] have "interval_dead (poll_resume r w0) i"
  proof
    assume "sockets (poll_resume r w0) = sockets w0 \<and> intervals (poll_resume r w0) = intervals w0"
    then have "interval_dead (poll_resume r w0) i = interval_dead w0 i"
      by (intro interval_dead_same) simp
    with d0 show ?thesis by simp
  next
    assume "\<exists>w'. poll_resume r w0 = stopStatusSync w' \<and> sockets w' = sockets w0
            \<and> intervals w' = intervals w0"
    then obtain w' where eq: "poll_resume r w0 = stopStatusSync w'"
      and s: "intervals w' = intervals w0"
      by blast
    from s have "interval_dead w' i = interval_dead w0 i" by (rule interval_dead_same)
    with d0 show ?thesis by (simp add: eq interval_dead_stopStatusSync)
  qed
  with d show ?thesis by (simp add: PollResponse w0_def)
next
  case (TimeoutFire t)
  assume d: "interval_dead w i"
  define w0 where "w0 = w\<lparr>timeouts := (timeouts w)[t := (fst (timeouts w ! t), False)]\<rparr>"
  have "interval_dead (reconnect_callback w0) i = interval_dead w i"
    by (rule interval_dead_same) (simp add: intervals_kept w0_def)
  with d show ?thesis by (simp add: TimeoutFire w0_def)
qed

lemma interval_dead_run: "interval_dead w i \<Longrightarrow> interval_dead (run es w) i"
  by (induction es arbitrary: w) (simp_all add: interval_dead_step)

lemma dead_interval_never_ticks:
  "interval_dead w i \<Longrightarrow> step (IntervalTick i) (run es w) = run es w"
  using interval_dead_run [of w i es] by (simp add: interval_dead_def interval_active_def)

lemma quiet_step:
  assumes "\<not> isResearching w" "no_live_socket w" "quiet_event e"
  shows "currentTask_value (step e w) = currentTask_value w
       \<and> progress_value (step e w) = progress_value w
       \<and> no_live_socket (step e w)
       \<and> length (sockets (step e w)) = length (sockets w)
       \<and> length (timeouts (step e w)) = length (timeouts w)"
proof (cases e)
  case (WsOpen k)
  with assms(2) show ?thesis
    by (auto simp add: no_live_socket_def readyState_of_def)
next
  case (WsMessage k parsed)
  with assms(2) show ?thesis
    by (auto simp add: no_live_socket_def readyState_of_def)
next
  case (WsError k)
  with assms(2) show ?thesis
    by (simp add: no_live_socket_def ws_onerror_def console_log_def)
next
  case (WsClose k)
  with assms(1,2) show ?thesis
    by (auto simp add: no_live_socket_def ws_onclose_def console_log_def set_readyState_def
          isResearching_def Let_def nth_list_update)
next
  case (IntervalTick k)
  with assms(2) show ?thesis
    by (simp add: no_live_socket_def)
next
  case (PollResponse k r)
  with assms(2,3) show ?thesis
    by (cases r) (simp_all add: no_live_socket_def poll_resume_def console_log_def)
next
  case (TimeoutFire t)
  with assms(1,2) show ?thesis
    by (auto simp add: no_live_socket_def reconnect_callback_def isResearching_def
          split: option.splits)
qed (use assms(3) in simp_all)

lemma quiet_run:
  assumes "\<not> isResearching w" "no_live_socket w" "list_all quiet_event es"
  shows "snapshot (run es w) = snapshot w
       \<and> length (sockets (run es w)) = length (sockets w)
       \<and> length (timeouts (run es w)) = length (timeouts w)"
  using assms
proof (induction es arbitrary: w)
  case Nil
  then show ?case by simp
next
  case (Cons e es)
  from Cons.prems have q: "quiet_event e" and qs: "list_all quiet_event es" by simp_all
  note s = quiet_step [OF Cons.prems(1,2) q]
  from s have nr: "\<not> isResearching (step e w)"
    using Cons.prems(1) by (simp add: isResearching_def)
  from s have nl: "no_live_socket (step e w)" by simp
  from Cons.IH [OF nr nl qs] s show ?case
    by (simp add: snapshot_def)
qed

lemma not_live_iff: "(st = CLOSING \<or> st = CLOSED) = (st \<noteq> CONNECTING \<and> st \<noteq> OPEN)"
  by (cases st) simp_all

lemma no_live_socket_stopStatusSync:
  assumes "only_held_live w"
  shows "no_live_socket (stopStatusSync w)"
proof (cases "wsConnection_value w")
  case None
  then have "sockets (stopStatusSync w) = sockets w"
    by (simp add: stopStatusSync_def sockets_kept)
  with assms None show ?thesis
    by (simp add: no_live_socket_def only_held_live_def not_live_iff)
next
  case (Some h)
  then have s: "sockets (stopStatusSync w) = sockets (ws_close h w)"
    by (simp add: stopStatusSync_def sockets_kept)
  have "snd (sockets (ws_close h w) ! k) \<noteq> CONNECTING \<and> snd (sockets (ws_close h w) ! k) \<noteq> OPEN"
    if "k < length (sockets (ws_close h w))" for k
  proof (cases "k = h")
    case True
    with that show ?thesis
      by (simp add: ws_close_def set_readyState_def readyState_of_def split: if_splits)
  next
    case False
    from that have k: "k < length (sockets w)"
      by (simp add: ws_close_def set_readyState_def split: if_splits)
    with assms Some False have "snd (sockets w ! k) \<noteq> CONNECTING \<and> snd (sockets w ! k) \<noteq> OPEN"
      by (auto simp add: only_held_live_def)
    with False k show ?thesis
      by (simp add: ws_close_def set_readyState_def)
  qed
  then show ?thesis
    by (simp add: no_live_socket_def s not_live_iff)
qed

lemma lengths_stopStatusSync:
  "length (sockets (stopStatusSync w)) = length (sockets w)"
  "length (intervals (stopStatusSync w)) = length (intervals w)"
  by (simp_all add: teardown_defs split: option.splits)

lemma held_socket_dead:
  assumes "wsConnection_value w = Some h" "h < length (sockets w)"
  shows "socket_dead (stopStatusSync w) h"
proof -
  from stopStatusSync_closes_held [OF assms(1)] assms(2)
  have "snd (sockets (stopStatusSync w) ! h) \<noteq> CONNECTING \<and> snd (sockets (stopStatusSync w) ! h) \<noteq> OPEN"
    by (simp add: readyState_of_def lengths_stopStatusSync)
  with assms(2) show ?thesis
    by (simp add: socket_dead_def lengths_stopStatusSync not_live_iff)
qed

lemma held_interval_dead:
  assumes "pollingTimer w = Some i" "i < length (intervals w)"
  shows "interval_dead (stopStatusSync w) i"
  using stopStatusSync_clears_held [OF assms(1)] assms(2)
  by (simp add: interval_dead_def interval_active_def lengths_stopStatusSync)

lemma terminal_frame_is_stop:
  assumes "st = JStr ''completed'' \<or> st = JStr ''failed''"
    and "(w' = poll_resume (Inr task) w \<and> task_status task = st)
       \<or> (w' = ws_onmessage (Inr data) w \<and> \<not> nullish data
            \<and> js_prop data ''type'' \<noteq> JStr ''heartbeat'' \<and> js_prop data ''status'' = st)"
  shows "\<exists>w0. w' = stopStatusSync w0 \<and> sockets w0 = sockets w \<and> intervals w0 = intervals w
            \<and> wsConnection_value w0 = wsConnection_value w \<and> pollingTimer w0 = pollingTimer w
            \<and> \<not> isResearching w0 \<and> status (progress_value w0) = st"
  using assms(2)
proof
  assume p: "w' = poll_resume (Inr task) w \<and> task_status task = st"
  with assms(1) have "w' = stopStatusSync (updateFromTask task w)"
    by (auto simp add: poll_resume_def Let_def)
  moreover have "\<not> isResearching (updateFromTask task w)"
    using p assms(1) by (auto simp add: isResearching_def updateFromTask_def)
  moreover have "status (progress_value (updateFromTask task w)) = st"
    using p by (simp add: updateFromTask_def)
  ultimately show ?thesis
    by (intro exI [of _ "updateFromTask task w"]) (simp add: updateFromTask_def)
next
  assume d: "w' = ws_onmessage (Inr data) w \<and> \<not> nullish data
            \<and> js_prop data ''type'' \<noteq> JStr ''heartbeat'' \<and> js_prop data ''status'' = st"
  with assms(1) show ?thesis
    by (cases "currentTask_value w")
       (auto simp add: ws_onmessage_def Let_def console_log_def isResearching_def)
qed

text \<open>
  C3, amended. When a frame whose status is \<^verbatim>\<open>completed\<close> or \<^verbatim>\<open>failed\<close> is applied, by the
  poll callback or by the message handler, the snapshot's status becomes that status and
  both handles become null. The socket that was held and the interval that was held, each
  one that the store has created, are stopped for good: that socket delivers no message
  ever again and that interval never ticks again, whatever events follow. If, when the frame
  was applied, no socket other than the held one was connecting or open, then through any
  sequence of events in which no status is applied and no component calls the store, the
  snapshot stays as the frame left it, no socket is constructed and no timeout is set.
\<close>

theorem terminal_frame_silences_held_channels:
  assumes st: "st = JStr ''completed'' \<or> st = JStr ''failed''"
    and applied:
      "(w' = poll_resume (Inr task) w \<and> task_status task = st)
       \<or> (w' = ws_onmessage (Inr data) w \<and> \<not> nullish data
            \<and> js_prop data ''type'' \<noteq> JStr ''heartbeat'' \<and> js_prop data ''status'' = st)"
  shows "status (progress_value w') = st
       \<and> wsConnection_value w' = None \<and> pollingTimer w' = None
       \<and> (\<forall>h es parsed. wsConnection_value w = Some h \<and> h < length (sockets w) \<longrightarrow>
              step (WsMessage h parsed) (run es w') = run es w')
       \<and> (\<forall>i es. pollingTimer w = Some i \<and> i < length (intervals w) \<longrightarrow>
              step (IntervalTick i) (run es w') = run es w')
       \<and> (only_held_live w \<longrightarrow>
            (\<forall>es. list_all quiet_event es \<longrightarrow>
                 snapshot (run es w') = snapshot w'
               \<and> length (sockets (run es w')) = length (sockets w')
               \<and> length (timeouts (run es w')) = length (timeouts w')))"
proof -
  from terminal_frame_is_stop [OF st applied]
  obtain w0 where eq: "w' = stopStatusSync w0" and s: "sockets w0 = sockets w"
    and i: "intervals w0 = intervals w" and c: "wsConnection_value w0 = wsConnection_value w"
    and t: "pollingTimer w0 = pollingTimer w" and nr: "\<not> isResearching w0"
    and stat: "status (progress_value w0) = st"
    by blast
  have nr': "\<not> isResearching w'"
    using nr by (simp add: eq isResearching_def)
  have "step (WsMessage h parsed) (run es w') = run es w'"
    if "wsConnection_value w = Some h \<and> h < length (sockets w)" for h es parsed
    using that held_socket_dead [of w0 h] c s
    by (intro dead_socket_never_delivers) (simp add: eq)
  moreover have "step (IntervalTick k) (run es w') = run es w'"
    if "pollingTimer w = Some k \<and> k < length (intervals w)" for k es
    using that held_interval_dead [of w0 k] t i
    by (intro dead_interval_never_ticks) (simp add: eq)
  moreover have "snapshot (run es w') = snapshot w'
               \<and> length (sockets (run es w')) = length (sockets w')
               \<and> length (timeouts (run es w')) = length (timeouts w')"
    if "only_held_live w" "list_all quiet_event es" for es
  proof -
    from that(1) have "only_held_live w0"
      by (simp add: only_held_live_def s c)
    then have "no_live_socket w'"
      unfolding eq by (rule no_live_socket_stopStatusSync)
    with nr' that(2) show ?thesis
      by (intro quiet_run)
  qed
  ultimately show ?thesis
    using stat by (simp add: eq)
qed

theorem terminal_frame_silences_held_channels_witness:
  "wsConnection_value tracking_world = Some 0 \<and> 0 < length (sockets tracking_world)
   \<and> pollingTimer tracking_world = Some 0 \<and> 0 < length (intervals tracking_world)
   \<and> only_held_live tracking_world
   \<and> task_status (example_task ''failed'' 30) = JStr ''failed''
   \<and> list_all quiet_event [WsClose 0, TimeoutFire 0, IntervalTick 0]
   \<and> step (WsMessage 0 (Inr (status_frame ''running'' 90)))
         (run [WsClose 0] (poll_resume (Inr (example_task ''failed'' 30)) tracking_world))
       = run [WsClose 0] (poll_resume (Inr (example_task ''failed'' 30)) tracking_world)
   \<and> step (IntervalTick 0)
         (run [WsClose 0] (poll_resume (Inr (example_task ''failed'' 30)) tracking_world))
       = run [WsClose 0] (poll_resume (Inr (example_task ''failed'' 30)) tracking_world)
   \<and> snapshot (run [WsClose 0, TimeoutFire 0, IntervalTick 0]
         (poll_resume (Inr (example_task ''failed'' 30)) tracking_world))
       = snapshot (poll_resume (Inr (example_task ''failed'' 30)) tracking_world)
   \<and> \<not> nullish (status_frame ''completed'' 100)
   \<and> js_prop (status_frame ''completed'' 100) ''type'' \<noteq> JStr ''heartbeat''
   \<and> js_prop (status_frame ''completed'' 100) ''status'' = JStr ''completed''
   \<and> snapshot (run [WsClose 0, TimeoutFire 0, IntervalTick 0]
         (ws_onmessage (Inr (status_frame ''completed'' 100)) tracking_world))
       = snapshot (ws_onmessage (Inr (status_frame ''completed'' 100)) tracking_world)
   \<and> length (timeouts (run [WsClose 0, TimeoutFire 0, IntervalTick 0]
         (ws_onmessage (Inr (status_frame ''completed'' 100)) tracking_world)))
       = length (timeouts (ws_onmessage (Inr (status_frame ''completed'' 100)) tracking_world))"
proof -
  have held: "wsConnection_value tracking_world = Some 0 \<and> 0 < length (sockets tracking_world)"
    "pollingTimer tracking_world = Some 0 \<and> 0 < length (intervals tracking_world)"
    by (simp_all add: store_defs)
  have only: "only_held_live tracking_world"
    by (simp add: store_defs only_held_live_def)
  have quiet: "list_all quiet_event [WsClose 0, TimeoutFire 0, IntervalTick 0]"
    by simp
  have failed: "task_status (example_task ''failed'' 30) = JStr ''failed''"
    by (simp add: example_task_def)
  have frame: "\<not> nullish (status_frame ''completed'' 100)"
    "js_prop (status_frame ''completed'' 100) ''type'' \<noteq> JStr ''heartbeat''"
    "js_prop (status_frame ''completed'' 100) ''status'' = JStr ''completed''"
    by (simp_all add: status_frame_def)
  note poll = terminal_frame_silences_held_channels [of "JStr ''failed''"
           "poll_resume (Inr (example_task ''failed'' 30)) tracking_world"
           "example_task ''failed'' 30" tracking_world "status_frame ''completed'' 100"]
  note push = terminal_frame_silences_held_channels [of "JStr ''completed''"
           "ws_onmessage (Inr (status_frame ''completed'' 100)) tracking_world"
           "example_task ''failed'' 30" tracking_world "status_frame ''completed'' 100"]
  from poll failed held(1) have "step (WsMessage 0 (Inr (status_frame ''running'' 90)))
         (run [WsClose 0] (poll_resume (Inr (example_task ''failed'' 30)) tracking_world))
       = run [WsClose 0] (poll_resume (Inr (example_task ''failed'' 30)) tracking_world)"
    by blast
  moreover from poll failed held(2) have "step (IntervalTick 0)
         (run [WsClose 0] (poll_resume (Inr (example_task ''failed'' 30)) tracking_world))
       = run [WsClose 0] (poll_resume (Inr (example_task ''failed'' 30)) tracking_world)"
    by blast
  moreover from poll failed only quiet have "snapshot (run [WsClose 0, TimeoutFire 0, IntervalTick 0]
         (poll_resume (Inr (example_task ''failed'' 30)) tracking_world))
       = snapshot (poll_resume (Inr (example_task ''failed'' 30)) tracking_world)"
    by blast
  moreover from push frame only quiet have
    "snapshot (run [WsClose 0, TimeoutFire 0, IntervalTick 0]
         (ws_onmessage (Inr (status_frame ''completed'' 100)) tracking_world))
       = snapshot (ws_onmessage (Inr (status_frame ''completed'' 100)) tracking_world)
     \<and> length (timeouts (run [WsClose 0, TimeoutFire 0, IntervalTick 0]
         (ws_onmessage (Inr (status_frame ''completed'' 100)) tracking_world)))
       = length (timeouts (ws_onmessage (Inr (status_frame ''completed'' 100)) tracking_world))"
    by blast
  ultimately show ?thesis
    using held only quiet failed frame by blast
qed

text \<open>
  C4, amended. After \<^verbatim>\<open>cleanup\<close> both handles are null, the current task is null and the
  progress record is the initial one. The socket that was held and the interval that was
  held, each one that the store has created, are stopped for good: that socket delivers no
  message ever again and that interval never ticks again, whatever events follow. If, at
  the time of \<^verbatim>\<open>cleanup\<close>, no socket other than the held one was connecting or open, then
  through any sequence of events in which no status is applied and no component calls the
  store, the snapshot stays reset, no socket is constructed and no timeout is set.
\<close>

theorem cleanup_silences_held_channels:
  "wsConnection_value (cleanup w) = None \<and> pollingTimer (cleanup w) = None
   \<and> snapshot (cleanup w) = (None, initial_progress)
   \<and> (\<forall>h es parsed. wsConnection_value w = Some h \<and> h < length (sockets w) \<longrightarrow>
          step (WsMessage h parsed) (run es (cleanup w)) = run es (cleanup w))
   \<and> (\<forall>i es. pollingTimer w = Some i \<and> i < length (intervals w) \<longrightarrow>
          step (IntervalTick i) (run es (cleanup w)) = run es (cleanup w))
   \<and> (only_held_live w \<longrightarrow>
        (\<forall>es. list_all quiet_event es \<longrightarrow>
             snapshot (run es (cleanup w)) = (None, initial_progress)
           \<and> length (sockets (run es (cleanup w))) = length (sockets w)
           \<and> length (timeouts (run es (cleanup w))) = length (timeouts w)))"
proof -
  have snap: "snapshot (cleanup w) = (None, initial_progress)"
    by (simp add: cleanup_eq snapshot_def)
  have sk: "sockets (cleanup w) = sockets (stopStatusSync w)"
    and ik: "intervals (cleanup w) = intervals (stopStatusSync w)"
    by (simp_all add: cleanup_eq)
  have tk: "timeouts (cleanup w) = timeouts w"
    by (simp add: cleanup_eq teardown_defs split: option.splits)
  have "step (WsMessage h parsed) (run es (cleanup w)) = run es (cleanup w)"
    if "wsConnection_value w = Some h \<and> h < length (sockets w)" for h es parsed
  proof -
    from that have "socket_dead (stopStatusSync w) h"
      by (simp add: held_socket_dead)
    then have "socket_dead (cleanup w) h"
      using socket_dead_same [OF sk] by simp
    then show ?thesis
      by (rule dead_socket_never_delivers)
  qed
  moreover have "step (IntervalTick k) (run es (cleanup w)) = run es (cleanup w)"
    if "pollingTimer w = Some k \<and> k < length (intervals w)" for k es
  proof -
    from that have "interval_dead (stopStatusSync w) k"
      by (simp add: held_interval_dead)
    then have "interval_dead (cleanup w) k"
      using interval_dead_same [OF ik] by simp
    then show ?thesis
      by (rule dead_interval_never_ticks)
  qed
  moreover have "snapshot (run es (cleanup w)) = (None, initial_progress)
           \<and> length (sockets (run es (cleanup w))) = length (sockets w)
           \<and> length (timeouts (run es (cleanup w))) = length (timeouts w)"
    if "only_held_live w" "list_all quiet_event es" for es
  proof -
    from that(1) have "no_live_socket (stopStatusSync w)"
      by (rule no_live_socket_stopStatusSync)
    then have nl: "no_live_socket (cleanup w)"
      by (simp add: no_live_socket_def sk)
    have nr: "\<not> isResearching (cleanup w)"
      by (simp add: cleanup_eq isResearching_def)
    from quiet_run [OF nr nl that(2)] show ?thesis
      by (simp add: snap sk tk lengths_stopStatusSync)
  qed
  ultimately show ?thesis
    using snap by (simp add: cleanup_eq)
qed

theorem cleanup_silences_held_channels_witness:
  "wsConnection_value tracking_world = Some 0 \<and> 0 < length (sockets tracking_world)
   \<and> pollingTimer tracking_world = Some 0 \<and> 0 < length (intervals tracking_world)
   \<and> only_held_live tracking_world
   \<and> list_all quiet_event [WsClose 0, TimeoutFire 0, PollResponse 0 (Inl NetworkError)]
   \<and> step (WsMessage 0 (Inr (status_frame ''running'' 50))) (run [WsError 0] (cleanup tracking_world))
       = run [WsError 0] (cleanup tracking_world)
   \<and> step (IntervalTick 0) (run [WsError 0] (cleanup tracking_world))
       = run [WsError 0] (cleanup tracking_world)
   \<and> snapshot (run [WsClose 0, TimeoutFire 0, PollResponse 0 (Inl NetworkError)]
                  (cleanup tracking_world)) = (None, initial_progress)
   \<and> length (sockets (run [WsClose 0, TimeoutFire 0, PollResponse 0 (Inl NetworkError)]
                  (cleanup tracking_world))) = length (sockets tracking_world)
   \<and> length (timeouts (run [WsClose 0, TimeoutFire 0, PollResponse 0 (Inl NetworkError)]
                  (cleanup tracking_world))) = length (timeouts tracking_world)"
proof -
  note inst = cleanup_silences_held_channels [of tracking_world]
  have held: "wsConnection_value tracking_world = Some 0 \<and> 0 < length (sockets tracking_world)"
    "pollingTimer tracking_world = Some 0 \<and> 0 < length (intervals tracking_world)"
    by (simp_all add: store_defs)
  have only: "only_held_live tracking_world"
    by (simp add: store_defs only_held_live_def)
  have quiet: "list_all quiet_event [WsClose 0, TimeoutFire 0, PollResponse 0 (Inl NetworkError)]"
    by simp
  from inst held(1) have "step (WsMessage 0 (Inr (status_frame ''running'' 50)))
        (run [WsError 0] (cleanup tracking_world)) = run [WsError 0] (cleanup tracking_world)"
    by blast
  moreover from inst held(2) have "step (IntervalTick 0) (run [WsError 0] (cleanup tracking_world))
       = run [WsError 0] (cleanup tracking_world)"
    by blast
  moreover from inst only quiet have
    "snapshot (run [WsClose 0, TimeoutFire 0, PollResponse 0 (Inl NetworkError)]
                  (cleanup tracking_world)) = (None, initial_progress)
     \<and> length (sockets (run [WsClose 0, TimeoutFire 0, PollResponse 0 (Inl NetworkError)]
                  (cleanup tracking_world))) = length (sockets tracking_world)
     \<and> length (timeouts (run [WsClose 0, TimeoutFire 0, PollResponse 0 (Inl NetworkError)]
                  (cleanup tracking_world))) = length (timeouts tracking_world)"
    by blast
  ultimately show ?thesis
    using held only quiet by blast
qed

text \<open>
  C5. A terminal frame does not tear the push channel down when a replaced socket is still
  open. After the channels were started a second time and the close event of the first
  socket dropped the handle of the second, a \<^verbatim>\<open>completed\<close> frame, arriving on the second
  socket or as a poll response, makes \<^verbatim>\<open>stopStatusSync\<close> close only the socket that is held,
  the third. The second socket stays open, and its next frame sets the snapshot back to
  \<^verbatim>\<open>running\<close>.
\<close>

theorem terminal_frame_leaves_replaced_socket_open:
  "sockets (run (remount_events @ [WsMessage 1 (Inr (status_frame ''completed'' 100))]) init_world)
     = [(''t1'', CLOSED), (''t1'', OPEN), (''t1'', CLOSING)]
   \<and> snapshot (run (remount_events @
        [WsMessage 1 (Inr (status_frame ''completed'' 100)),
         WsMessage 1 (Inr (status_frame ''running'' 50))]) init_world)
     = (Some (example_task ''running'' 50),
        \<lparr>status = JStr ''running'', progress = JNum 50, currentAgent = JStr ''a'',
         currentTask = JStr ''b'', estimatedTime = JNum 0\<rparr>)
   \<and> sockets (run (remount_events @
        [IntervalTick 1, PollResponse 0 (Inr (example_task ''completed'' 100))]) init_world)
     = [(''t1'', CLOSED), (''t1'', OPEN), (''t1'', CLOSING)]
   \<and> snapshot (run (remount_events @
        [IntervalTick 1, PollResponse 0 (Inr (example_task ''completed'' 100)),
         WsMessage 1 (Inr (status_frame ''running'' 50))]) init_world)
     = (Some (example_task ''running'' 50),
        \<lparr>status = JStr ''running'', progress = JNum 50, currentAgent = JStr ''a'',
         currentTask = JStr ''b'', estimatedTime = JNum 0\<rparr>)"
  by (simp add: remount_events_def mounted_events_def store_defs)

end
